theory Spec2Isabelle
  imports Complex_Main "HOL-Library.Word" "HOL-Library.Monad_Syntax"
begin

unbundle bit_operations_syntax

section \<open>Common conventions\<close>

text \<open>
  A Go run-time panic (an index out of range, a nil dereference, a negative
  length given to \<open>make\<close>) is the value \<open>None\<close> of the outer \<open>option\<close> of a
  result; a function that cannot panic returns its value directly.  A Go
  \<open>error\<close> is a value of type \<open>error\<close>, \<open>nil\<close> being \<open>None\<close>.
\<close>

datatype error = Error string

text \<open>\<open>xs[i]\<close> for a Go slice or array: panics outside \<open>0 \<le> i < len(xs)\<close>.\<close>

definition at_index :: "'a list \<Rightarrow> int \<Rightarrow> 'a option" where
  "at_index xs i = (if 0 \<le> i \<and> i < int (length xs) then Some (xs ! nat i) else None)"

text \<open>\<open>xs[i] = v\<close>, with the same bounds check.\<close>

definition store_index :: "'a list \<Rightarrow> int \<Rightarrow> 'a \<Rightarrow> 'a list option" where
  "store_index xs i v = (if 0 \<le> i \<and> i < int (length xs) then Some (xs[nat i := v]) else None)"

text \<open>
  Go's builtin \<open>copy(dst, src)\<close>: the first \<open>min (len dst) (len src)\<close> elements of
  \<open>src\<close> overwrite the front of \<open>dst\<close>; overlapping slices are handled as by memmove.
\<close>

definition copy_slice :: "'a list \<Rightarrow> 'a list \<Rightarrow> 'a list" where
  "copy_slice dst src = take (length dst) src @ drop (length src) dst"

section \<open>Streams\<close>

text \<open>
  Modelled from the spec: the types \<open>AudioStream\<close> and \<open>CodecDescriptor\<close> and the
  direction flags are declared outside the source files at hand.  Only the fields
  that the functions below read are kept: the direction flags of a stream, its
  transmit descriptor (nil or a descriptor with a sampling rate) and whether it
  has a transmit event descriptor.  Send and receive are two distinct one-bit
  flags.  No function below writes to a stream, so a stream pointer is modelled
  by the stream's value; \<open>stream_id\<close> stands for the identity of the pointer.
\<close>

definition STREAM_DIRECTION_SEND :: int where
  "STREAM_DIRECTION_SEND = 1"

definition STREAM_DIRECTION_RECEIVE :: int where
  "STREAM_DIRECTION_RECEIVE = 2"

record CodecDescriptor =
  SamplingRate :: nat

record AudioStream =
  stream_id :: nat
  direction :: int
  TXDescriptor :: "CodecDescriptor option"
  TXEventDescriptor :: "CodecDescriptor option"

section \<open>Terminations, contexts and the context factory\<close>

text \<open>
  Modelled from the spec: the struct \<open>Termination\<close> is declared outside the source
  files at hand.  The functions below use its slot index (an \<open>int64\<close>, \<open>-1\<close> when
  unbound), its audio stream (a pointer, possibly nil) and its codec manager (an
  opaque handle).  A termination is mutable and shared, so the functions take
  references to terminations and a store that maps every reference to the
  termination's state; the references passed as arguments are not nil.

  The \<open>int64\<close> values \<open>Capacity\<close>, \<open>Count\<close>, \<open>slot\<close> and the loop counters are
  integers: they only move by one and stay between \<open>-1\<close> and the length of the
  header slice, so none of them can wrap around.  The \<open>uint8\<close> fields \<open>On\<close>,
  \<open>TXCount\<close> and \<open>RXCount\<close> are 8-bit words and do wrap around.
\<close>

type_synonym term_ref = nat
type_synonym ctx_ref = nat
type_synonym elem_ref = nat

record Termination =
  slot :: int
  audioStream :: "AudioStream option"
  codecManager :: nat

record MatrixItem =
  On :: "8 word"

text \<open>The field \<open>termination\<close> of a header item is written \<open>termination'\<close>.\<close>

record HeaderItem =
  termination' :: "term_ref option"
  TXCount :: "8 word"
  RXCount :: "8 word"

text \<open>
  Modelled from the spec: the struct \<open>Object\<close> (a media processing object) is
  declared outside the source files at hand; \<open>ContextProcess\<close> reads its field
  \<open>Process\<close>, which is nil or a function that returns an error.  What the process
  steps read and write (streams, frames, codecs) is a state of type \<open>'w\<close>.
\<close>

record 'w Object =
  Process :: "('w \<Rightarrow> error option \<times> 'w) option"

text \<open>
  Modelled from the spec: the type \<open>apr.ArrayHeader\<close> of the field \<open>mpfObjects\<close> is
  declared outside the source files at hand; it is the list of the objects pushed
  so far, in the order they were pushed, indexed from 0.

  The other fields of the struct \<open>Context\<close> are those of the source, without the
  back pointer to the factory (there is one factory, held by the heap below) and
  without the external object \<open>Obj\<close>.  \<open>Element\<close> is the reference to the element
  of the factory's list that \<open>ContextCreate\<close> stored.
\<close>

record 'w Context =
  Element :: elem_ref
  Name :: string
  Capacity :: int
  Count :: int
  header :: "HeaderItem list"
  matrix :: "MatrixItem list list"
  mpfObjects :: "'w Object option list"

text \<open>
  The factory's \<open>Link\<close> is a \<open>container/list\<close> of contexts: its elements front to
  back, each with its own identity and the reference to the context it holds.
\<close>

record ContextFactory =
  Link :: "(elem_ref \<times> ctx_ref) list"

text \<open>
  The heap: the factory, the contexts and the terminations, with the number of
  list elements and of contexts allocated so far.
\<close>

record 'w heap =
  factory :: ContextFactory
  elements_allocated :: nat
  contexts :: "ctx_ref \<Rightarrow> 'w Context"
  contexts_allocated :: nat
  terminations :: "term_ref \<Rightarrow> Termination"

definition ContextFactoryCreate :: ContextFactory where
  "ContextFactoryCreate = \<lparr>Link = []\<rparr>"

text \<open>\<open>factory.Link.PushBack(context)\<close>: a new element at the back; it is returned.\<close>

definition PushBack :: "ctx_ref \<Rightarrow> 'w heap \<Rightarrow> elem_ref \<times> 'w heap" where
  "PushBack c h =
     (let e = elements_allocated h
      in (e, h\<lparr>factory := (factory h)\<lparr>Link := Link (factory h) @ [(e, c)]\<rparr>,
                elements_allocated := e + 1\<rparr>))"

text \<open>
  \<open>factory.Link.Remove(e)\<close>: the element \<open>e\<close> leaves the list if it is one of its
  elements; otherwise nothing happens.
\<close>

definition Remove :: "elem_ref \<Rightarrow> 'w heap \<Rightarrow> 'w heap" where
  "Remove e h = h\<lparr>factory := (factory h)\<lparr>Link := filter (\<lambda>x. fst x \<noteq> e) (Link (factory h))\<rparr>\<rparr>"

definition set_context :: "ctx_ref \<Rightarrow> 'w Context \<Rightarrow> 'w heap \<Rightarrow> 'w heap" where
  "set_context c context h = h\<lparr>contexts := (contexts h)(c := context)\<rparr>"

definition set_slot :: "term_ref \<Rightarrow> int \<Rightarrow> 'w heap \<Rightarrow> 'w heap" where
  "set_slot t i h = h\<lparr>terminations := (terminations h)(t := (terminations h t)\<lparr>slot := i\<rparr>)\<rparr>"

text \<open>\<open>&context.matrix[i][j]\<close>, both indices bounds-checked.\<close>

definition matrix_at :: "'w Context \<Rightarrow> int \<Rightarrow> int \<Rightarrow> MatrixItem option" where
  "matrix_at context i j =
     (case at_index (matrix context) i of None \<Rightarrow> None | Some row \<Rightarrow> at_index row j)"

text \<open>
  Writes through the pointers \<open>&context.matrix[i][j]\<close> and \<open>&context.header[i]\<close>,
  used after the bounds check that produced the pointer.
\<close>

definition set_On :: "int \<Rightarrow> int \<Rightarrow> 8 word \<Rightarrow> 'w Context \<Rightarrow> 'w Context" where
  "set_On i j v context =
     context\<lparr>matrix := (matrix context)[nat i := (matrix context ! nat i)[nat j := \<lparr>On = v\<rparr>]]\<rparr>"

definition update_header :: "int \<Rightarrow> (HeaderItem \<Rightarrow> HeaderItem) \<Rightarrow> 'w Context \<Rightarrow> 'w Context" where
  "update_header i f context =
     context\<lparr>header := (header context)[nat i := f (header context ! nat i)]\<rparr>"

text \<open>
  The block that \<open>ContextTerminationSubtract\<close>, \<open>ContextAssociationRemove\<close> and
  \<open>ContextAssociationsReset\<close> each contain twice, for the edge \<open>a \<rightarrow> b\<close>:
  \<open>item := &context.matrix[a][b]; if item.On > 0 { item.On = 0; header[a].TXCount--;
  header[b].RXCount-- }\<close>.
\<close>

definition clear_edge :: "int \<Rightarrow> int \<Rightarrow> 'w Context \<Rightarrow> 'w Context option" where
  "clear_edge a b context =
     (case matrix_at context a b of
        None \<Rightarrow> None
      | Some item \<Rightarrow>
          Some (if On item > 0
                then update_header b (\<lambda>x. x\<lparr>RXCount := RXCount x - 1\<rparr>)
                       (update_header a (\<lambda>x. x\<lparr>TXCount := TXCount x - 1\<rparr>)
                          (set_On a b 0 context))
                else context))"

definition StreamDirectionCompatibilityCheck :: "Termination \<Rightarrow> Termination \<Rightarrow> bool" where
  "StreamDirectionCompatibilityCheck termination1 termination2 =
     (case audioStream termination1 of
        None \<Rightarrow> False
      | Some source \<Rightarrow>
          direction source AND STREAM_DIRECTION_RECEIVE = STREAM_DIRECTION_RECEIVE \<and>
          (case audioStream termination2 of
             None \<Rightarrow> False
           | Some sink \<Rightarrow> direction sink AND STREAM_DIRECTION_SEND = STREAM_DIRECTION_SEND))"

text \<open>
  The block of \<open>ContextAssociationAdd\<close> for the edge \<open>a \<rightarrow> b\<close>, between the
  terminations \<open>ta\<close> and \<open>tb\<close> that the header holds at \<open>a\<close> and \<open>b\<close>:
  \<open>if item.On <= 0 { if StreamDirectionCompatibilityCheck(ta, tb) { item.On = 1;
  header[a].TXCount++; header[b].RXCount++ } }\<close>.
\<close>

definition set_edge :: "Termination \<Rightarrow> Termination \<Rightarrow> int \<Rightarrow> int \<Rightarrow> 'w Context \<Rightarrow> 'w Context" where
  "set_edge ta tb a b context =
     (if On (matrix context ! nat a ! nat b) \<le> 0
      then (if StreamDirectionCompatibilityCheck ta tb
            then update_header b (\<lambda>x. x\<lparr>RXCount := RXCount x + 1\<rparr>)
                   (update_header a (\<lambda>x. x\<lparr>TXCount := TXCount x + 1\<rparr>)
                      (set_On a b 1 context))
            else context)
      else context)"

text \<open>
  \<open>ContextCreate\<close>.  \<open>make\<close> panics on a negative length.  The two loops store
  nil and 0 in every header item and 0 in every matrix item, which is what
  \<open>make\<close> has put there.  The new context is pushed on the factory's list.
\<close>

definition ContextCreate :: "string \<Rightarrow> int \<Rightarrow> 'w heap \<Rightarrow> (ctx_ref \<times> 'w heap) option" where
  "ContextCreate name maxTerminationCount h =
     (if maxTerminationCount < 0 then None
      else let c = contexts_allocated h;
               (ele, h1) = PushBack c h;
               context = \<lparr>Element = ele, Name = name, Capacity = maxTerminationCount, Count = 0,
                          header = replicate (nat maxTerminationCount)
                                     \<lparr>termination' = None, TXCount = 0, RXCount = 0\<rparr>,
                          matrix = replicate (nat maxTerminationCount)
                                     (replicate (nat maxTerminationCount) \<lparr>On = 0\<rparr>),
                          mpfObjects = []\<rparr>
           in Some (c, (set_context c context h1)\<lparr>contexts_allocated := c + 1\<rparr>))"

text \<open>\<open>ContextTerminationAdd\<close>: the loop over the header, from index \<open>i\<close>.\<close>

function ContextTerminationAdd_loop ::
  "ctx_ref \<Rightarrow> term_ref \<Rightarrow> int \<Rightarrow> 'w heap \<Rightarrow> (bool \<times> 'w heap) option" where
  "ContextTerminationAdd_loop c t i h =
     (if i < Capacity (contexts h c)
      then (case at_index (header (contexts h c)) i of
              None \<Rightarrow> None
            | Some headerItem \<Rightarrow>
                if termination' headerItem \<noteq> None
                then ContextTerminationAdd_loop c t (i + 1) h
                else let h1 = (if Count (contexts h c) = 0 then snd (PushBack c h) else h);
                         context = contexts h1 c;
                         context1 = update_header i
                           (\<lambda>x. x\<lparr>termination' := Some t, TXCount := 0, RXCount := 0\<rparr>) context
                     in Some (True,
                          set_context c (context1\<lparr>Count := Count context1 + 1\<rparr>) (set_slot t i h1)))
      else Some (False, h))"
  by pat_completeness auto
termination
  by (relation "measure (\<lambda>(c, t, i, h). nat (Capacity (contexts h c) - i))") auto

declare ContextTerminationAdd_loop.simps [simp del]

definition ContextTerminationAdd :: "ctx_ref \<Rightarrow> term_ref \<Rightarrow> 'w heap \<Rightarrow> (bool \<times> 'w heap) option" where
  "ContextTerminationAdd c t h = ContextTerminationAdd_loop c t 0 h"

lemma clear_edge_Capacity:
  "clear_edge a b context = Some context' \<Longrightarrow>
   Capacity context' = Capacity context \<and> Count context' = Count context"
  by (auto simp add: clear_edge_def update_header_def set_On_def split: option.splits if_splits)

text \<open>
  The loop of \<open>ContextTerminationSubtract\<close> over the header, from index \<open>j\<close> with
  counter \<open>k\<close>, for the slot \<open>i\<close> of the termination.  As in the source, an item
  whose termination is not nil is skipped.
\<close>

function ContextTerminationSubtract_loop ::
  "int \<Rightarrow> int \<Rightarrow> int \<Rightarrow> 'w Context \<Rightarrow> 'w Context option" where
  "ContextTerminationSubtract_loop i j k context =
     (if j < Capacity context \<and> k < Count context
      then (case at_index (header context) j of
              None \<Rightarrow> None
            | Some headerItem2 \<Rightarrow>
                if termination' headerItem2 \<noteq> None
                then ContextTerminationSubtract_loop i (j + 1) k context
                else (case clear_edge i j context of
                        None \<Rightarrow> None
                      | Some context1 \<Rightarrow>
                          (case clear_edge j i context1 of
                             None \<Rightarrow> None
                           | Some context2 \<Rightarrow>
                               ContextTerminationSubtract_loop i (j + 1) (k + 1) context2)))
      else Some context)"
  by pat_completeness auto
termination
  by (relation "measure (\<lambda>(i, j, k, context). nat (Capacity context - j))")
     (auto dest!: clear_edge_Capacity)

declare ContextTerminationSubtract_loop.simps [simp del]

fun ContextTerminationSubtract ::
  "ctx_ref \<Rightarrow> term_ref \<Rightarrow> 'w heap \<Rightarrow> (bool \<times> 'w heap) option" where
  "ContextTerminationSubtract c t h =
     (let context = contexts h c;
          i = slot (terminations h t)
      in if i \<ge> Capacity context then Some (False, h)
         else (case at_index (header context) i of
                 None \<Rightarrow> None
               | Some headerItem1 \<Rightarrow>
                   if termination' headerItem1 \<noteq> Some t then Some (False, h)
                   else (case ContextTerminationSubtract_loop i 0 0 context of
                           None \<Rightarrow> None
                         | Some context1 \<Rightarrow>
                             let context2 = update_header i (\<lambda>x. x\<lparr>termination' := None\<rparr>) context1;
                                 context3 = context2\<lparr>Count := Count context2 - 1\<rparr>;
                                 h1 = set_context c context3 (set_slot t (- 1) h)
                             in Some (True,
                                  if Count context3 \<le> 0 then Remove (Element context3) h1 else h1))))"

declare ContextTerminationSubtract.simps [simp del]

text \<open>
  \<open>ContextAssociationAdd\<close>.  It reads the terminations and writes the context
  only.  The four pointers into the header and the matrix are taken, with their
  bounds checks, before the first write.  After the guard
  \<open>headerItem1.termination\<close> is \<open>termination1\<close> and \<open>headerItem2.termination\<close> is
  \<open>termination2\<close>.
\<close>

fun ContextAssociationAdd ::
  "(term_ref \<Rightarrow> Termination) \<Rightarrow> 'w Context \<Rightarrow> term_ref \<Rightarrow> term_ref
     \<Rightarrow> (error option \<times> 'w Context) option" where
  "ContextAssociationAdd terms context termination1 termination2 =
     (let i = slot (terms termination1);
          j = slot (terms termination2)
      in if i \<ge> Capacity context \<or> j \<ge> Capacity context
         then Some (Some (Error ''slot >= context.Capacity''), context)
         else (case at_index (header context) i of
                 None \<Rightarrow> None
               | Some headerItem1 \<Rightarrow>
                   (case at_index (header context) j of
                      None \<Rightarrow> None
                    | Some headerItem2 \<Rightarrow>
                        if termination' headerItem1 \<noteq> Some termination1
                           \<or> termination' headerItem2 \<noteq> Some termination2
                        then Some (Some (Error ''no match Termination''), context)
                        else (case matrix_at context i j of
                                None \<Rightarrow> None
                              | Some matrixItem1 \<Rightarrow>
                                  (case matrix_at context j i of
                                     None \<Rightarrow> None
                                   | Some matrixItem2 \<Rightarrow>
                                       Some (None,
                                         set_edge (terms termination2) (terms termination1) j i
                                           (set_edge (terms termination1) (terms termination2) i j
                                              context)))))))"

declare ContextAssociationAdd.simps [simp del]

fun ContextAssociationRemove ::
  "(term_ref \<Rightarrow> Termination) \<Rightarrow> 'w Context \<Rightarrow> term_ref \<Rightarrow> term_ref
     \<Rightarrow> (error option \<times> 'w Context) option" where
  "ContextAssociationRemove terms context termination1 termination2 =
     (let i = slot (terms termination1);
          j = slot (terms termination2)
      in if i \<ge> Capacity context \<or> j \<ge> Capacity context
         then Some (Some (Error ''slot >= context.Capacity''), context)
         else (case at_index (header context) i of
                 None \<Rightarrow> None
               | Some headerItem1 \<Rightarrow>
                   (case at_index (header context) j of
                      None \<Rightarrow> None
                    | Some headerItem2 \<Rightarrow>
                        if termination' headerItem1 \<noteq> Some termination1
                           \<or> termination' headerItem2 \<noteq> Some termination2
                        then Some (Some (Error ''no match Termination''), context)
                        else (case matrix_at context i j of
                                None \<Rightarrow> None
                              | Some matrixItem1 \<Rightarrow>
                                  (case matrix_at context j i of
                                     None \<Rightarrow> None
                                   | Some matrixItem2 \<Rightarrow>
                                       (case clear_edge i j context of
                                          None \<Rightarrow> None
                                        | Some context1 \<Rightarrow>
                                            (case clear_edge j i context1 of
                                               None \<Rightarrow> None
                                             | Some context2 \<Rightarrow> Some (None, context2))))))))"

declare ContextAssociationRemove.simps [simp del]

lemma ContextTerminationSubtract_loop_Capacity:
  "ContextTerminationSubtract_loop i j k ctx = Some ctx' \<Longrightarrow> Capacity ctx' = Capacity ctx"
proof (induction i j k ctx rule: ContextTerminationSubtract_loop.induct)
  case (1 i j k ctx)
  from "1.prems" show ?case
    by (subst (asm) ContextTerminationSubtract_loop.simps)
       (use "1.IH" in \<open>fastforce split: if_splits option.splits dest: clear_edge_Capacity\<close>)
qed

lemma ContextTerminationSubtract_Capacity:
  "ContextTerminationSubtract c t h = Some (ok, h') \<Longrightarrow>
   Capacity (contexts h' c) = Capacity (contexts h c)"
  by (auto simp add: ContextTerminationSubtract.simps Let_def set_context_def set_slot_def
        Remove_def update_header_def
        split: if_splits option.splits dest!: ContextTerminationSubtract_loop_Capacity)

definition set_termination :: "term_ref \<Rightarrow> Termination \<Rightarrow> 'w heap \<Rightarrow> 'w heap" where
  "set_termination t tm h = h\<lparr>terminations := (terminations h)(t := tm)\<rparr>"

text \<open>
  \<open>ContextDestroy\<close>: the loop over the header, from index \<open>i\<close>.  The method
  \<open>termination.TerminationSubtract()\<close> is defined outside the source files at
  hand; it is the parameter \<open>TerminationSubtract\<close>, which acts on the termination
  and returns an error or nil.
\<close>

function ContextDestroy_loop ::
  "(Termination \<Rightarrow> error option \<times> Termination) \<Rightarrow> ctx_ref \<Rightarrow> int \<Rightarrow> 'w heap
     \<Rightarrow> (error option \<times> 'w heap) option" where
  "ContextDestroy_loop TerminationSubtract c i h =
     (if i < Capacity (contexts h c)
      then (case at_index (header (contexts h c)) i of
              None \<Rightarrow> None
            | Some headerItem \<Rightarrow>
                (case termination' headerItem of
                   None \<Rightarrow> ContextDestroy_loop TerminationSubtract c (i + 1) h
                 | Some t \<Rightarrow>
                     (case ContextTerminationSubtract c t h of
                        None \<Rightarrow> None
                      | Some (ok, h1) \<Rightarrow>
                          (case TerminationSubtract (terminations h1 t) of
                             (Some err, tm) \<Rightarrow> Some (Some err, set_termination t tm h1)
                           | (None, tm) \<Rightarrow>
                               ContextDestroy_loop TerminationSubtract c (i + 1)
                                 (set_termination t tm h1)))))
      else Some (None, h))"
  by pat_completeness auto
termination
  by (relation "measure (\<lambda>(ts, c, i, h). nat (Capacity (contexts h c) - i))")
     (auto simp add: set_termination_def dest!: ContextTerminationSubtract_Capacity)

declare ContextDestroy_loop.simps [simp del]

definition ContextDestroy ::
  "(Termination \<Rightarrow> error option \<times> Termination) \<Rightarrow> ctx_ref \<Rightarrow> 'w heap
     \<Rightarrow> (error option \<times> 'w heap) option" where
  "ContextDestroy TerminationSubtract c h = ContextDestroy_loop TerminationSubtract c 0 h"

text \<open>
  \<open>ContextAssociationsReset\<close>: the inner loop, for the slot \<open>i\<close>, over \<open>j\<close> from
  \<open>i\<close>, and the outer loop over \<open>i\<close> with the counter \<open>k\<close>.
\<close>

function ContextAssociationsReset_inner ::
  "int \<Rightarrow> int \<Rightarrow> 'w Context \<Rightarrow> 'w Context option" where
  "ContextAssociationsReset_inner i j context =
     (if j < Capacity context
      then (case at_index (header context) j of
              None \<Rightarrow> None
            | Some headerItem2 \<Rightarrow>
                if termination' headerItem2 = None
                then ContextAssociationsReset_inner i (j + 1) context
                else (case clear_edge i j context of
                        None \<Rightarrow> None
                      | Some context1 \<Rightarrow>
                          (case clear_edge j i context1 of
                             None \<Rightarrow> None
                           | Some context2 \<Rightarrow> ContextAssociationsReset_inner i (j + 1) context2)))
      else Some context)"
  by pat_completeness auto
termination
  by (relation "measure (\<lambda>(i, j, context). nat (Capacity context - j))")
     (auto dest!: clear_edge_Capacity)

declare ContextAssociationsReset_inner.simps [simp del]

lemma ContextAssociationsReset_inner_Capacity:
  "ContextAssociationsReset_inner i j ctx = Some ctx' \<Longrightarrow> Capacity ctx' = Capacity ctx"
proof (induction i j ctx rule: ContextAssociationsReset_inner.induct)
  case (1 i j ctx)
  from "1.prems" show ?case
    by (subst (asm) ContextAssociationsReset_inner.simps)
       (use "1.IH" in \<open>fastforce split: if_splits option.splits dest: clear_edge_Capacity\<close>)
qed

function ContextAssociationsReset_loop ::
  "int \<Rightarrow> int \<Rightarrow> 'w Context \<Rightarrow> 'w Context option" where
  "ContextAssociationsReset_loop i k context =
     (if i < Capacity context \<and> k < Count context
      then (case at_index (header context) i of
              None \<Rightarrow> None
            | Some headerItem1 \<Rightarrow>
                if termination' headerItem1 = None
                then ContextAssociationsReset_loop (i + 1) k context
                else if TXCount headerItem1 \<le> 0 \<and> RXCount headerItem1 \<le> 0
                then ContextAssociationsReset_loop (i + 1) (k + 1) context
                else (case ContextAssociationsReset_inner i i context of
                        None \<Rightarrow> None
                      | Some context1 \<Rightarrow> ContextAssociationsReset_loop (i + 1) (k + 1) context1))
      else Some context)"
  by pat_completeness auto
termination
  by (relation "measure (\<lambda>(i, k, context). nat (Capacity context - i))")
     (auto dest!: ContextAssociationsReset_inner_Capacity)

declare ContextAssociationsReset_loop.simps [simp del]

text \<open>
  \<open>ContextAssociationsReset\<close>.  Its first statement is \<open>_ = ContextDestroy(context)\<close>:
  the error is dropped, a panic is not.
\<close>

definition ContextAssociationsReset ::
  "(Termination \<Rightarrow> error option \<times> Termination) \<Rightarrow> ctx_ref \<Rightarrow> 'w heap
     \<Rightarrow> (error option \<times> 'w heap) option" where
  "ContextAssociationsReset TerminationSubtract c h =
     (case ContextDestroy TerminationSubtract c h of
        None \<Rightarrow> None
      | Some (err, h1) \<Rightarrow>
          (case ContextAssociationsReset_loop 0 0 (contexts h1 c) of
             None \<Rightarrow> None
           | Some context \<Rightarrow> Some (None, set_context c context h1)))"

subsection \<open>Topology\<close>

text \<open>
  \<open>BridgeCreate\<close>, \<open>MultiplierCreate\<close> and \<open>MixerCreate\<close> are defined outside the
  source files at hand: they are parameters, given as one record.  Each takes the
  streams, the codec manager and the name it is called with; \<open>BridgeCreate\<close>
  returns an object (or nil) and an error (or nil), the other two an object (or
  nil).
\<close>

record 'w constructors =
  BridgeCreate ::
    "AudioStream option \<Rightarrow> AudioStream option \<Rightarrow> nat \<Rightarrow> string \<Rightarrow> 'w Object option \<times> error option"
  MultiplierCreate ::
    "AudioStream option \<Rightarrow> AudioStream option list \<Rightarrow> int \<Rightarrow> nat \<Rightarrow> string \<Rightarrow> 'w Object option"
  MixerCreate ::
    "AudioStream option list \<Rightarrow> int \<Rightarrow> AudioStream option \<Rightarrow> nat \<Rightarrow> string \<Rightarrow> 'w Object option"

definition ContextObjectAdd :: "'w Context \<Rightarrow> 'w Object option \<Rightarrow> error option \<times> 'w Context" where
  "ContextObjectAdd context object =
     (case object of
        None \<Rightarrow> (Some (Error ''object is nil''), context)
      | Some ob \<Rightarrow> (None, context\<lparr>mpfObjects := mpfObjects context @ [Some ob]\<rparr>))"

text \<open>
  \<open>ContextTopologyDestroy\<close>: \<open>ObjectDestroy\<close>, defined outside the source files at
  hand, is called on every object and its result dropped; then the list is
  cleared.  Only the context is modelled here.
\<close>

definition ContextTopologyDestroy :: "'w Context \<Rightarrow> 'w Context" where
  "ContextTopologyDestroy context = context\<lparr>mpfObjects := []\<rparr>"

text \<open>\<open>ContextBridgeCreate\<close>: the loop over \<open>j\<close>; \<open>headerItem1\<close> is \<open>&context.header[i]\<close>.\<close>

function ContextBridgeCreate_loop ::
  "'w constructors \<Rightarrow> (term_ref \<Rightarrow> Termination) \<Rightarrow> 'w Context \<Rightarrow> HeaderItem \<Rightarrow> int \<Rightarrow> int
     \<Rightarrow> ('w Object option \<times> error option) option" where
  "ContextBridgeCreate_loop K terms context headerItem1 i j =
     (if j < Capacity context
      then (case at_index (header context) j of
              None \<Rightarrow> None
            | Some headerItem2 \<Rightarrow>
                (case termination' headerItem2 of
                   None \<Rightarrow> ContextBridgeCreate_loop K terms context headerItem1 i (j + 1)
                 | Some t2 \<Rightarrow>
                     (case matrix_at context i j of
                        None \<Rightarrow> None
                      | Some item \<Rightarrow>
                          if On item \<le> 0
                          then ContextBridgeCreate_loop K terms context headerItem1 i (j + 1)
                          else if RXCount headerItem2 > 1
                          then Some (None, None)
                          else (case termination' headerItem1 of
                                  None \<Rightarrow>
                                    ContextBridgeCreate_loop K terms context headerItem1 i (j + 1)
                                | Some t1 \<Rightarrow>
                                    Some (BridgeCreate K (audioStream (terms t1))
                                            (audioStream (terms t2)) (codecManager (terms t1))
                                            (Name context))))))
      else Some (None, None))"
  by pat_completeness auto
termination
  by (relation "measure (\<lambda>(K, terms, context, h1, i, j). nat (Capacity context - j))") auto

declare ContextBridgeCreate_loop.simps [simp del]

definition ContextBridgeCreate ::
  "'w constructors \<Rightarrow> (term_ref \<Rightarrow> Termination) \<Rightarrow> 'w Context \<Rightarrow> int
     \<Rightarrow> ('w Object option \<times> error option) option" where
  "ContextBridgeCreate K terms context i =
     (case at_index (header context) i of
        None \<Rightarrow> None
      | Some headerItem1 \<Rightarrow> ContextBridgeCreate_loop K terms context headerItem1 i 0)"

text \<open>
  The loop of \<open>ContextMultiplierCreate\<close> (\<open>by_row\<close>, matrix item \<open>[i][j]\<close> for the
  fixed row \<open>i\<close>) and of \<open>ContextMixerCreate\<close> (matrix item \<open>[j][i]\<close> for the fixed
  column \<open>i\<close>): it fills the array \<open>arr\<close> of \<open>n\<close> streams from index \<open>k\<close>.
\<close>

function collect_streams ::
  "bool \<Rightarrow> (term_ref \<Rightarrow> Termination) \<Rightarrow> 'w Context \<Rightarrow> int \<Rightarrow> int \<Rightarrow> int \<Rightarrow> int
     \<Rightarrow> AudioStream option list \<Rightarrow> AudioStream option list option" where
  "collect_streams by_row terms context n i j k arr =
     (if j < Capacity context \<and> k < n
      then (case at_index (header context) j of
              None \<Rightarrow> None
            | Some headerItem2 \<Rightarrow>
                (case termination' headerItem2 of
                   None \<Rightarrow> collect_streams by_row terms context n i (j + 1) k arr
                 | Some t2 \<Rightarrow>
                     (case (if by_row then matrix_at context i j else matrix_at context j i) of
                        None \<Rightarrow> None
                      | Some item \<Rightarrow>
                          if On item \<le> 0
                          then collect_streams by_row terms context n i (j + 1) k arr
                          else (case store_index arr k (audioStream (terms t2)) of
                                  None \<Rightarrow> None
                                | Some arr1 \<Rightarrow>
                                    collect_streams by_row terms context n i (j + 1) (k + 1) arr1))))
      else Some arr)"
  by pat_completeness auto
termination
  by (relation "measure (\<lambda>(b, terms, context, n, i, j, k, arr). nat (Capacity context - j))") auto

declare collect_streams.simps [simp del]

definition ContextMultiplierCreate ::
  "'w constructors \<Rightarrow> (term_ref \<Rightarrow> Termination) \<Rightarrow> 'w Context \<Rightarrow> int \<Rightarrow> 'w Object option option" where
  "ContextMultiplierCreate K terms context i =
     (case at_index (header context) i of
        None \<Rightarrow> None
      | Some headerItem1 \<Rightarrow>
          (case collect_streams True terms context (uint (TXCount headerItem1)) i 0 0
                  (replicate (unat (TXCount headerItem1)) None) of
             None \<Rightarrow> None
           | Some sinkArr \<Rightarrow>
               (case termination' headerItem1 of
                  None \<Rightarrow> None
                | Some t1 \<Rightarrow>
                    Some (MultiplierCreate K (audioStream (terms t1)) sinkArr (int (length sinkArr))
                            (codecManager (terms t1)) (Name context)))))"

definition ContextMixerCreate ::
  "'w constructors \<Rightarrow> (term_ref \<Rightarrow> Termination) \<Rightarrow> 'w Context \<Rightarrow> int \<Rightarrow> 'w Object option option" where
  "ContextMixerCreate K terms context j =
     (case at_index (header context) j of
        None \<Rightarrow> None
      | Some headerItem1 \<Rightarrow>
          (case collect_streams False terms context (uint (RXCount headerItem1)) j 0 0
                  (replicate (unat (RXCount headerItem1)) None) of
             None \<Rightarrow> None
           | Some sourceArr \<Rightarrow>
               (case termination' headerItem1 of
                  None \<Rightarrow> None
                | Some t1 \<Rightarrow>
                    Some (MixerCreate K sourceArr (int (length sourceArr)) (audioStream (terms t1))
                            (codecManager (terms t1)) (Name context)))))"

text \<open>
  The two blocks of the body of the loop of \<open>ContextTopologyApply\<close> for the slot
  \<open>i\<close>: \<open>if headerItem.TXCount > 0 { ... }\<close> and \<open>if headerItem.RXCount > 1 { ... }\<close>.
  Each returns the error that makes \<open>ContextTopologyApply\<close> return, or nil.
\<close>

definition topology_tx ::
  "'w constructors \<Rightarrow> (term_ref \<Rightarrow> Termination) \<Rightarrow> int \<Rightarrow> HeaderItem \<Rightarrow> 'w Context
     \<Rightarrow> (error option \<times> 'w Context) option" where
  "topology_tx K terms i headerItem context =
     (if TXCount headerItem > 0
      then (case (if TXCount headerItem = 1
                  then ContextBridgeCreate K terms context i
                  else map_option (\<lambda>ob. (ob, None)) (ContextMultiplierCreate K terms context i)) of
              None \<Rightarrow> None
            | Some (object, Some err) \<Rightarrow> Some (Some err, context)
            | Some (object, None) \<Rightarrow> Some (ContextObjectAdd context object))
      else Some (None, context))"

definition topology_rx ::
  "'w constructors \<Rightarrow> (term_ref \<Rightarrow> Termination) \<Rightarrow> int \<Rightarrow> HeaderItem \<Rightarrow> 'w Context
     \<Rightarrow> (error option \<times> 'w Context) option" where
  "topology_rx K terms i headerItem context =
     (if RXCount headerItem > 1
      then (case ContextMixerCreate K terms context i of
              None \<Rightarrow> None
            | Some object \<Rightarrow> Some (ContextObjectAdd context object))
      else Some (None, context))"

lemma topology_tx_Capacity:
  "topology_tx K terms i headerItem context = Some (err, context') \<Longrightarrow>
   Capacity context' = Capacity context"
  by (auto simp add: topology_tx_def ContextObjectAdd_def split: if_splits option.splits prod.splits)

lemma topology_rx_Capacity:
  "topology_rx K terms i headerItem context = Some (err, context') \<Longrightarrow>
   Capacity context' = Capacity context"
  by (auto simp add: topology_rx_def ContextObjectAdd_def split: if_splits option.splits prod.splits)

function ContextTopologyApply_loop ::
  "'w constructors \<Rightarrow> (term_ref \<Rightarrow> Termination) \<Rightarrow> int \<Rightarrow> int \<Rightarrow> 'w Context
     \<Rightarrow> (error option \<times> 'w Context) option" where
  "ContextTopologyApply_loop K terms i k context =
     (if i < Capacity context \<and> k < Count context
      then (case at_index (header context) i of
              None \<Rightarrow> None
            | Some headerItem \<Rightarrow>
                if termination' headerItem = None
                then ContextTopologyApply_loop K terms (i + 1) k context
                else (case topology_tx K terms i headerItem context of
                        None \<Rightarrow> None
                      | Some (Some err, context1) \<Rightarrow> Some (Some err, context1)
                      | Some (None, context1) \<Rightarrow>
                          (case topology_rx K terms i headerItem context1 of
                             None \<Rightarrow> None
                           | Some (Some err, context2) \<Rightarrow> Some (Some err, context2)
                           | Some (None, context2) \<Rightarrow>
                               ContextTopologyApply_loop K terms (i + 1) (k + 1) context2)))
      else Some (None, context))"
  by pat_completeness auto
termination
  by (relation "measure (\<lambda>(K, terms, i, k, context). nat (Capacity context - i))")
     (auto dest!: topology_tx_Capacity topology_rx_Capacity)

declare ContextTopologyApply_loop.simps [simp del]

definition ContextTopologyApply ::
  "'w constructors \<Rightarrow> (term_ref \<Rightarrow> Termination) \<Rightarrow> 'w Context
     \<Rightarrow> (error option \<times> 'w Context) option" where
  "ContextTopologyApply K terms context =
     ContextTopologyApply_loop K terms 0 0 (ContextTopologyDestroy context)"



section \<open>The DTMF detector (mpf/mpf\_dtmf\_detector.go)\<close>

text \<open>
  \<open>float64\<close> arithmetic is not interpreted: the detector is polymorphic in the
  type \<open>'f\<close> of floating-point values and every function that computes with them
  takes the operations as a record.  No theorem below depends on how they round.
\<close>

record 'f float64_ops =
  f_add :: "'f \<Rightarrow> 'f \<Rightarrow> 'f"
  f_sub :: "'f \<Rightarrow> 'f \<Rightarrow> 'f"
  f_mul :: "'f \<Rightarrow> 'f \<Rightarrow> 'f"
  f_div :: "'f \<Rightarrow> 'f \<Rightarrow> 'f"
  f_cos :: "'f \<Rightarrow> 'f"
  f_pi :: 'f
  f_of_int :: "int \<Rightarrow> 'f"


definition MPF_DTMF_DETECTOR_INBAND :: int where
  "MPF_DTMF_DETECTOR_INBAND = 1"

definition MPF_DTMF_DETECTOR_OUTBAND :: int where
  "MPF_DTMF_DETECTOR_OUTBAND = 2"

definition MPF_DTMF_DETECTOR_BOTH :: int where
  "MPF_DTMF_DETECTOR_BOTH = MPF_DTMF_DETECTOR_INBAND OR MPF_DTMF_DETECTOR_OUTBAND"

definition MPF_DTMFDET_BUFFER_LEN :: nat where
  "MPF_DTMFDET_BUFFER_LEN = 32"

definition DTMF_FREQUENCIES :: nat where
  "DTMF_FREQUENCIES = 8"

definition GOERTZEL_SAMPLES_8K :: nat where
  "GOERTZEL_SAMPLES_8K = 102"

record 'f GoertzelState =
  Coef :: 'f
  S1 :: 'f
  S2 :: 'f

text \<open>
  The struct \<open>DtmfDetector\<close> without its mutex.  \<open>buf\<close> is the array of
  \<open>MPF_DTMFDET_BUFFER_LEN + 1\<close> bytes, \<open>energies\<close> the array of
  \<open>DTMF_FREQUENCIES\<close> resonators; the \<open>int64\<close> fields are 64-bit words read as
  signed numbers.
\<close>

record 'f DtmfDetector =
  Band :: int
  buf :: "8 word list"
  Digits :: "64 word"
  LostDigits :: "64 word"
  energies :: "'f GoertzelState list"
  TotalEnergy :: 'f
  WSamples :: "64 word"
  NSamples :: "64 word"
  last1 :: "8 word"
  last2 :: "8 word"
  curr :: "8 word"

definition DtmfFreqs :: "int list" where
  "DtmfFreqs = [697, 770, 852, 941, 1209, 1336, 1477, 1633]"

text \<open>\<open>new(DtmfDetector)\<close>: every field has its zero value.\<close>

definition new_DtmfDetector :: "'f float64_ops \<Rightarrow> 'f DtmfDetector" where
  "new_DtmfDetector F =
     \<lparr>Band = 0, buf = replicate (MPF_DTMFDET_BUFFER_LEN + 1) 0, Digits = 0, LostDigits = 0,
      energies = replicate DTMF_FREQUENCIES
        \<lparr>Coef = f_of_int F 0, S1 = f_of_int F 0, S2 = f_of_int F 0\<rparr>,
      TotalEnergy = f_of_int F 0, WSamples = 0, NSamples = 0,
      last1 = 0, last2 = 0, curr = 0\<rparr>"

text \<open>
  The coefficient of resonator \<open>i\<close>:
  \<open>2 * math.Cos(2*math.Pi*DtmfFreqs[i]/float64(SamplingRate))\<close>.
\<close>

definition goertzel_coef :: "'f float64_ops \<Rightarrow> nat \<Rightarrow> nat \<Rightarrow> 'f" where
  "goertzel_coef F rate i =
     f_mul F (f_of_int F 2)
       (f_cos F (f_div F (f_mul F (f_mul F (f_of_int F 2) (f_pi F)) (f_of_int F (DtmfFreqs ! i)))
                   (f_of_int F (int rate))))"

text \<open>
  \<open>DtmfDetectorCreateEx\<close>.  The result \<open>None\<close> is the nil detector.  The in-band
  branch reads \<open>stream.TXDescriptor.SamplingRate\<close>; the flag is cleared when the
  descriptor is nil, so the nil dereference of that branch cannot happen and the
  model returns nil there.
\<close>

definition DtmfDetectorCreateEx ::
  "'f float64_ops \<Rightarrow> AudioStream \<Rightarrow> int \<Rightarrow> 'f DtmfDetector option" where
  "DtmfDetectorCreateEx F stream band =
     (let flgBand = (if TXDescriptor stream = None
                     then band AND NOT MPF_DTMF_DETECTOR_INBAND else band)
      in if flgBand \<le> 0 then None
         else let det = (new_DtmfDetector F)\<lparr>Band := flgBand\<rparr>
              in if Band det AND MPF_DTMF_DETECTOR_INBAND > 0
                 then (case TXDescriptor stream of
                         None \<Rightarrow> None
                       | Some d \<Rightarrow>
                           Some (det\<lparr>energies :=
                                      map (\<lambda>i. \<lparr>Coef = goertzel_coef F (SamplingRate d) i,
                                                S1 = f_of_int F 0, S2 = f_of_int F 0\<rparr>)
                                        [0..<DTMF_FREQUENCIES],
                                    NSamples := 0,
                                    WSamples := of_nat (GOERTZEL_SAMPLES_8K * (SamplingRate d div 8000)),
                                    last1 := 0, last2 := 0, curr := 0\<rparr>))
                 else Some det)"

definition DtmfDetectorCreate :: "'f float64_ops \<Rightarrow> AudioStream \<Rightarrow> 'f DtmfDetector option" where
  "DtmfDetectorCreate F stream =
     DtmfDetectorCreateEx F stream
       (if TXEventDescriptor stream \<noteq> None then MPF_DTMF_DETECTOR_BOTH
        else MPF_DTMF_DETECTOR_INBAND)"

text \<open>
  \<open>DtmfDetectorDigitGet\<close>: the digit at the front of the buffer; when it is not 0
  the buffer is shifted down by \<open>copy(buf[:], buf[1:])\<close> and \<open>Digits\<close> decremented.
\<close>

definition DtmfDetectorDigitGet :: "'f DtmfDetector \<Rightarrow> (8 word \<times> 'f DtmfDetector) option" where
  "DtmfDetectorDigitGet detector =
     (case at_index (buf detector) 0 of
        None \<Rightarrow> None
      | Some digit \<Rightarrow>
          Some (digit,
                if digit > 0
                then detector\<lparr>buf := copy_slice (buf detector) (drop 1 (buf detector)),
                              Digits := Digits detector - 1\<rparr>
                else detector))"

definition DtmfDetectorDigitsLost :: "'f DtmfDetector \<Rightarrow> 64 word" where
  "DtmfDetectorDigitsLost detector = LostDigits detector"

definition DtmfDetectorReset :: "'f float64_ops \<Rightarrow> 'f DtmfDetector \<Rightarrow> 'f DtmfDetector option" where
  "DtmfDetectorReset F detector =
     (case store_index (buf detector) 0 0 of
        None \<Rightarrow> None
      | Some b \<Rightarrow>
          Some (detector\<lparr>buf := b, LostDigits := 0, Digits := 0, curr := 0, last1 := 0,
                          last2 := 0, NSamples := 0, TotalEnergy := f_of_int F 0\<rparr>))"


text \<open>
  One resonator step of \<open>GoertzelSample\<close>:
  \<open>s := S1; S1 = S2; S2 = float64(sample) + Coef*S1 - s\<close>, the \<open>S1\<close> of the product
  being the one just assigned.
\<close>

definition goertzel_step :: "'f float64_ops \<Rightarrow> 'f \<Rightarrow> 'f GoertzelState \<Rightarrow> 'f GoertzelState" where
  "goertzel_step F x e =
     (let s = S1 e;
          e1 = e\<lparr>S1 := S2 e\<rparr>
      in e1\<lparr>S2 := f_sub F (f_add F x (f_mul F (Coef e1) (S1 e1))) s\<rparr>)"

text \<open>The loop \<open>for i := 0; i < DTMF_FREQUENCIES; i++\<close> over the array \<open>energies\<close>.\<close>

function goertzel_loop ::
  "'f float64_ops \<Rightarrow> 'f \<Rightarrow> nat \<Rightarrow> 'f GoertzelState list \<Rightarrow> 'f GoertzelState list" where
  "goertzel_loop F x i es =
     (if i < DTMF_FREQUENCIES
      then goertzel_loop F x (i + 1) (es[i := goertzel_step F x (es ! i)])
      else es)"
  by pat_completeness auto
termination
  by (relation "measure (\<lambda>(F, x, i, es). DTMF_FREQUENCIES - i)") auto

declare goertzel_loop.simps [simp del]

text \<open>
  \<open>GoertzelSample\<close>.  The product \<open>sample * sample\<close> is a product of two \<open>int16\<close>
  values, hence an \<open>int16\<close> that wraps around; it is converted to \<open>float64\<close> after
  the multiplication.
\<close>

definition GoertzelSample :: "'f float64_ops \<Rightarrow> 'f DtmfDetector \<Rightarrow> 16 word \<Rightarrow> 'f DtmfDetector" where
  "GoertzelSample F detector sample =
     (let d1 = detector\<lparr>energies :=
                 goertzel_loop F (f_of_int F (sint sample)) 0 (energies detector)\<rparr>
      in d1\<lparr>TotalEnergy := f_add F (TotalEnergy d1) (f_of_int F (sint (sample * sample)))\<rparr>)"

text \<open>\<open>GoertzelEnergiesDigit\<close> and \<open>DtmfDetectorGetFrame\<close> have empty bodies.\<close>

definition GoertzelEnergiesDigit :: "'f DtmfDetector \<Rightarrow> 'f DtmfDetector" where
  "GoertzelEnergiesDigit detector = detector"

definition DtmfDetectorGetFrame :: "'f DtmfDetector \<Rightarrow> 'frame \<Rightarrow> 'f DtmfDetector" where
  "DtmfDetectorGetFrame detector frame = detector"



text \<open>An 8 kHz stream with a transmit descriptor.\<close>

definition stream_8k :: AudioStream where
  "stream_8k = \<lparr>stream_id = 0, direction = 3, TXDescriptor = Some \<lparr>SamplingRate = 8000\<rparr>,
     TXEventDescriptor = None\<rparr>"





subsection \<open>Initial states\<close>

text \<open>
  Before any context is created: the factory's list is empty and every
  termination is unbound (slot \<open>-1\<close>); the termination \<open>t\<close> has the audio stream
  \<open>streams t\<close>.
\<close>

definition empty_context :: "'w Context" where
  "empty_context = \<lparr>Element = 0, Name = [], Capacity = 0, Count = 0, header = [], matrix = [],
     mpfObjects = []\<rparr>"

definition initial_heap :: "(term_ref \<Rightarrow> AudioStream option) \<Rightarrow> 'w heap" where
  "initial_heap streams =
     \<lparr>factory = ContextFactoryCreate, elements_allocated = 0, contexts = (\<lambda>c. empty_context),
      contexts_allocated = 0,
      terminations = (\<lambda>t. \<lparr>slot = - 1, audioStream = streams t, codecManager = 0\<rparr>)\<rparr>"

text \<open>A stream that can send and receive, one that only receives, one that only sends.\<close>

definition duplex_stream :: "nat \<Rightarrow> AudioStream" where
  "duplex_stream n = \<lparr>stream_id = n, direction = STREAM_DIRECTION_SEND OR STREAM_DIRECTION_RECEIVE,
     TXDescriptor = None, TXEventDescriptor = None\<rparr>"

definition receive_stream :: "nat \<Rightarrow> AudioStream" where
  "receive_stream n = \<lparr>stream_id = n, direction = STREAM_DIRECTION_RECEIVE,
     TXDescriptor = None, TXEventDescriptor = None\<rparr>"

definition send_stream :: "nat \<Rightarrow> AudioStream" where
  "send_stream n = \<lparr>stream_id = n, direction = STREAM_DIRECTION_SEND,
     TXDescriptor = None, TXEventDescriptor = None\<rparr>"

text \<open>
  \<open>ContextAssociationAdd\<close> and \<open>ContextAssociationRemove\<close> on the context \<open>c\<close> of
  a heap.
\<close>

definition heap_AssociationAdd ::
  "ctx_ref \<Rightarrow> term_ref \<Rightarrow> term_ref \<Rightarrow> 'w heap \<Rightarrow> (error option \<times> 'w heap) option" where
  "heap_AssociationAdd c t1 t2 h =
     map_option (\<lambda>(err, context). (err, set_context c context h))
       (ContextAssociationAdd (terminations h) (contexts h c) t1 t2)"

definition heap_AssociationRemove ::
  "ctx_ref \<Rightarrow> term_ref \<Rightarrow> term_ref \<Rightarrow> 'w heap \<Rightarrow> (error option \<times> 'w heap) option" where
  "heap_AssociationRemove c t1 t2 h =
     map_option (\<lambda>(err, context). (err, set_context c context h))
       (ContextAssociationRemove (terminations h) (contexts h c) t1 t2)"

text \<open>
  A context of capacity 2 with the terminations 0 and 1 bound and associated in
  both directions.
\<close>

definition bound_pair :: "unit heap" where
  "bound_pair =
     (case do { (c, h1) \<leftarrow> ContextCreate ''c'' 2 (initial_heap (\<lambda>t. Some (duplex_stream t)));
                (ok1, h2) \<leftarrow> ContextTerminationAdd c 0 h1;
                (ok2, h3) \<leftarrow> ContextTerminationAdd c 1 h2;
                (err, h4) \<leftarrow> heap_AssociationAdd c 1 0 h3;
                Some h4 } of
        None \<Rightarrow> initial_heap (\<lambda>t. None)
      | Some h \<Rightarrow> h)"

text \<open>
  A context of capacity 4 in which the slot 0 holds a termination that only sends
  and the slots 1, 2 and 3 terminations that only receive, each associated with
  the termination 0: three edges into the slot 0.
\<close>

definition fan_in_sink_first :: "unit heap" where
  "fan_in_sink_first =
     (case do { (c, h1) \<leftarrow> ContextCreate ''c'' 4
                  (initial_heap (\<lambda>t. Some (if t = 0 then send_stream t else receive_stream t)));
                (ok0, h2) \<leftarrow> ContextTerminationAdd c 0 h1;
                (ok1, h3) \<leftarrow> ContextTerminationAdd c 1 h2;
                (ok2, h4) \<leftarrow> ContextTerminationAdd c 2 h3;
                (ok3, h5) \<leftarrow> ContextTerminationAdd c 3 h4;
                (err0, h6) \<leftarrow> heap_AssociationAdd c 1 0 h5;
                (err1, h7) \<leftarrow> heap_AssociationAdd c 2 0 h6;
                (err2, h8) \<leftarrow> heap_AssociationAdd c 3 0 h7;
                Some h8 } of
        None \<Rightarrow> initial_heap (\<lambda>t. None)
      | Some h \<Rightarrow> h)"

subsection \<open>Processing every object\<close>




subsection \<open>Counters and edges\<close>

text \<open>
  The header has \<open>Capacity\<close> items and the matrix \<open>Capacity\<close> rows of \<open>Capacity\<close>
  items, as \<open>ContextCreate\<close> allocates them.
\<close>

definition well_formed :: "'w Context \<Rightarrow> bool" where
  "well_formed context \<longleftrightarrow>
     0 \<le> Capacity context \<and> length (header context) = nat (Capacity context) \<and>
     length (matrix context) = nat (Capacity context) \<and>
     list_all (\<lambda>row. length row = nat (Capacity context)) (matrix context)"

text \<open>
  The number of slots \<open>j\<close> with \<open>matrix[k][j]\<close> on, and the number of slots \<open>j\<close> with
  \<open>matrix[j][k]\<close> on.
\<close>

definition tx_edges :: "'w Context \<Rightarrow> nat \<Rightarrow> nat" where
  "tx_edges context k = length (filter (\<lambda>item. On item > 0) (matrix context ! k))"

definition rx_edges :: "'w Context \<Rightarrow> nat \<Rightarrow> nat" where
  "rx_edges context k = length (filter (\<lambda>row. On (row ! k) > 0) (matrix context))"

text \<open>
  For every slot \<open>k\<close>, \<open>header[k].TXCount\<close> is the number of the edges out of \<open>k\<close>
  and \<open>header[k].RXCount\<close> the number of the edges into \<open>k\<close>.
\<close>

definition counters_consistent :: "'w Context \<Rightarrow> bool" where
  "counters_consistent context \<longleftrightarrow>
     list_all (\<lambda>k. unat (TXCount (header context ! k)) = tx_edges context k \<and>
                   unat (RXCount (header context ! k)) = rx_edges context k)
       [0..<nat (Capacity context)]"

text \<open>The termination \<open>t\<close> occupies the slot it names in the context.\<close>

definition bound_to :: "(term_ref \<Rightarrow> Termination) \<Rightarrow> 'w Context \<Rightarrow> term_ref \<Rightarrow> bool" where
  "bound_to terms context t \<longleftrightarrow>
     (case at_index (header context) (slot (terms t)) of
        None \<Rightarrow> False
      | Some headerItem \<Rightarrow> slot (terms t) < Capacity context \<and> termination' headerItem = Some t)"

text \<open>
  Calls of \<open>ContextAssociationAdd\<close> and \<open>ContextAssociationRemove\<close>, and a run of a list
  of them on one context; an error returned by a call does not stop the run.
\<close>

datatype association_call =
  CallAssociationAdd term_ref term_ref | CallAssociationRemove term_ref term_ref

fun call_bound :: "(term_ref \<Rightarrow> Termination) \<Rightarrow> 'w Context \<Rightarrow> association_call \<Rightarrow> bool" where
  "call_bound terms context (CallAssociationAdd t1 t2) =
     (bound_to terms context t1 \<and> bound_to terms context t2)"
| "call_bound terms context (CallAssociationRemove t1 t2) =
     (bound_to terms context t1 \<and> bound_to terms context t2)"

fun run_association_call ::
  "(term_ref \<Rightarrow> Termination) \<Rightarrow> 'w Context \<Rightarrow> association_call
     \<Rightarrow> (error option \<times> 'w Context) option" where
  "run_association_call terms context (CallAssociationAdd t1 t2) =
     ContextAssociationAdd terms context t1 t2"
| "run_association_call terms context (CallAssociationRemove t1 t2) =
     ContextAssociationRemove terms context t1 t2"

fun run_association_calls ::
  "(term_ref \<Rightarrow> Termination) \<Rightarrow> 'w Context \<Rightarrow> association_call list \<Rightarrow> 'w Context option" where
  "run_association_calls terms context [] = Some context"
| "run_association_calls terms context (call # calls) =
     (case run_association_call terms context call of
        None \<Rightarrow> None
      | Some (err, context') \<Rightarrow> run_association_calls terms context' calls)"

text \<open>The header binds the same terminations in the same slots.\<close>

definition same_bindings :: "'w Context \<Rightarrow> 'w Context \<Rightarrow> bool" where
  "same_bindings ctx ctx' \<longleftrightarrow>
     Capacity ctx' = Capacity ctx \<and>
     map termination' (header ctx') = map termination' (header ctx)"

text \<open>
  Terminations and contexts of capacity 256 for the \<open>uint8\<close> counters.  The
  termination \<open>k\<close> names the slot \<open>k\<close>; the stream of the termination 0 sends and
  receives, the streams of the others only send.  In \<open>fan_context n\<close> every
  termination \<open>k < 256\<close> is bound in the slot \<open>k\<close> and the edges that are on are those
  from the slot 0 to the slots 1 to \<open>n\<close>; \<open>fan_context 0\<close> has no edge and all its
  counters are 0.  \<open>fan_calls\<close> associates the termination 0 with the terminations
  1 to 255, one after the other, and then with itself.
\<close>

definition fan_terms :: "term_ref \<Rightarrow> Termination" where
  "fan_terms t = \<lparr>slot = int t,
     audioStream = Some (if t = 0 then duplex_stream 0 else send_stream t), codecManager = 0\<rparr>"

definition fan_context :: "nat \<Rightarrow> unit Context" where
  "fan_context n =
     \<lparr>Element = 0, Name = ''fan'', Capacity = 256, Count = 256,
      header = map (\<lambda>k. \<lparr>termination' = Some k,
                           TXCount = (if k = 0 then of_nat n else 0),
                           RXCount = (if 0 < k \<and> k \<le> n then 1 else 0)\<rparr>) [0..<256],
      matrix = map (\<lambda>i. map (\<lambda>j. \<lparr>On = (if i = 0 \<and> 0 < j \<and> j \<le> n then 1 else 0)\<rparr>) [0..<256])
                 [0..<256],
      mpfObjects = []\<rparr>"

definition fan_calls :: "association_call list" where
  "fan_calls = map (\<lambda>k. CallAssociationAdd 0 (Suc k)) [0..<255] @ [CallAssociationAdd 0 0]"

text \<open>A context of capacity 2 with the terminations 0 and 1 bound.\<close>

definition example_heap :: "unit heap" where
  "example_heap =
     (case do { (c, h1) \<leftarrow> ContextCreate ''c'' 2 (initial_heap (\<lambda>t. Some (duplex_stream t)));
                (ok1, h2) \<leftarrow> ContextTerminationAdd c 0 h1;
                (ok2, h3) \<leftarrow> ContextTerminationAdd c 1 h2;
                Some h3 } of
        None \<Rightarrow> initial_heap (\<lambda>t. None)
      | Some h \<Rightarrow> h)"

section \<open>Theorems about contexts\<close>

text \<open>
  C1.  A context of capacity 2: termination 0 is bound (slot 0), then
  termination 1 (slot 1), the two are associated, and termination 1 is
  subtracted.  The loop of \<open>ContextTerminationSubtract\<close> passes over the bound slot
  0, so the context does not return to its state before termination 1 was bound:
  both matrix entries between the slots stay on, slot 0 keeps \<open>TXCount = RXCount = 1\<close>
  and the unbound slot 1 keeps \<open>TXCount = RXCount = 1\<close>.
\<close>

theorem ContextTerminationSubtract_leaves_edges:
  "do { (c, h1) \<leftarrow> ContextCreate ''c'' 2 (initial_heap (\<lambda>t. Some (duplex_stream t)));
        (ok1, h2) \<leftarrow> ContextTerminationAdd c 0 h1;
        (ok2, h3) \<leftarrow> ContextTerminationAdd c 1 h2;
        (err, h4) \<leftarrow> heap_AssociationAdd c 1 0 h3;
        (ok3, h5) \<leftarrow> ContextTerminationSubtract c 1 h4;
        Some ((ok1, ok2, err, ok3),
              (Count (contexts h2 c), header (contexts h2 c), matrix (contexts h2 c)),
              (Count (contexts h5 c), header (contexts h5 c), matrix (contexts h5 c))) }
   = Some ((True, True, None, True),
           (1, [\<lparr>termination' = Some 0, TXCount = 0, RXCount = 0\<rparr>,
                \<lparr>termination' = None, TXCount = 0, RXCount = 0\<rparr>],
               [[\<lparr>On = 0\<rparr>, \<lparr>On = 0\<rparr>], [\<lparr>On = 0\<rparr>, \<lparr>On = 0\<rparr>]]),
           (1, [\<lparr>termination' = Some 0, TXCount = 1, RXCount = 1\<rparr>,
                \<lparr>termination' = None, TXCount = 1, RXCount = 1\<rparr>],
               [[\<lparr>On = 0\<rparr>, \<lparr>On = 1\<rparr>], [\<lparr>On = 1\<rparr>, \<lparr>On = 0\<rparr>]]))"
  by code_simp

text \<open>
  C2.  \<open>ContextAssociationsReset\<close> calls \<open>ContextDestroy\<close>, which subtracts every
  bound termination and leaves the object list alone: on a context with two bound
  and associated terminations and one topology object it leaves the count 0, both
  header slots empty, both terminations with slot \<open>-1\<close>, and the object in the
  list.
\<close>

theorem ContextAssociationsReset_unbinds:
  "do { (c, h1) \<leftarrow> ContextCreate ''c'' 2 (initial_heap (\<lambda>t. Some (duplex_stream t)));
        (ok1, h2) \<leftarrow> ContextTerminationAdd c 0 h1;
        (ok2, h3) \<leftarrow> ContextTerminationAdd c 1 h2;
        (err1, h4) \<leftarrow> heap_AssociationAdd c 1 0 h3;
        (err2, context) \<leftarrow> Some (ContextObjectAdd (contexts h4 c) (Some \<lparr>Process = None\<rparr>));
        (err3, h6) \<leftarrow> ContextAssociationsReset (\<lambda>t. (None, t)) c (set_context c context h4);
        Some ((ok1, ok2, err1, err2, err3),
              (Count context, map termination' (header context),
               slot (terminations h4 0), slot (terminations h4 1), length (mpfObjects context)),
              (Count (contexts h6 c), map termination' (header (contexts h6 c)),
               slot (terminations h6 0), slot (terminations h6 1),
               length (mpfObjects (contexts h6 c)))) }
   = Some ((True, True, None, None, None),
           (2, [Some 0, Some 1], 0, 1, 1),
           (0, [None, None], - 1, - 1, 1))"
  by code_simp

text \<open>
  The same holds whatever error \<open>TerminationSubtract\<close> returns and whatever it does
  to the termination: after \<open>ContextAssociationsReset\<close> on the context with two
  bound terminations the slot 0 is empty and fewer than two terminations are bound.
\<close>

lemma ContextAssociationsReset_unbinds_always:
  "map_option (\<lambda>(err, h). (Count (contexts h 0) < 2, termination' (header (contexts h 0) ! 0)))
     (ContextAssociationsReset (\<lambda>tm. (e, g tm)) 0 bound_pair)
   = Some (True, None)
   \<and> Count (contexts bound_pair 0) = 2
   \<and> map termination' (header (contexts bound_pair 0)) = [Some 0, Some 1]"
proof (cases e)
  case None
  show ?thesis unfolding None by code_simp
next
  case (Some err)
  show ?thesis unfolding Some by code_simp
qed

text \<open>
  C3.  Slots 0, 1 and 2 each have one outgoing edge, to slot 3, whose \<open>RXCount\<close> is
  3.  At slot 0 \<open>ContextBridgeCreate\<close> returns a nil object and a nil error, and
  \<open>ContextTopologyApply\<close> passes the nil object to \<open>ContextObjectAdd\<close>, whose
  error it returns: no object is created, whatever the constructors \<open>K\<close> are.
\<close>

theorem ContextTopologyApply_fan_in_fails:
  "do { (c, h1) \<leftarrow> ContextCreate ''c'' 4
                     (initial_heap (\<lambda>t. Some (if t = 3 then send_stream t else receive_stream t)));
        (ok0, h2) \<leftarrow> ContextTerminationAdd c 0 h1;
        (ok1, h3) \<leftarrow> ContextTerminationAdd c 1 h2;
        (ok2, h4) \<leftarrow> ContextTerminationAdd c 2 h3;
        (ok3, h5) \<leftarrow> ContextTerminationAdd c 3 h4;
        (err0, h6) \<leftarrow> heap_AssociationAdd c 0 3 h5;
        (err1, h7) \<leftarrow> heap_AssociationAdd c 1 3 h6;
        (err2, h8) \<leftarrow> heap_AssociationAdd c 2 3 h7;
        (err, context) \<leftarrow> ContextTopologyApply K (terminations h8) (contexts h8 c);
        Some ((ok0, ok1, ok2, ok3, err0, err1, err2),
              map TXCount (header (contexts h8 c)), map RXCount (header (contexts h8 c)),
              map (map On) (matrix (contexts h8 c)),
              err, length (mpfObjects context)) }
   = Some ((True, True, True, True, None, None, None),
           [1, 1, 1, 0], [0, 0, 0, 3],
           [[0, 0, 0, 1], [0, 0, 0, 1], [0, 0, 0, 1], [0, 0, 0, 0]],
           Some (Error ''object is nil''), 0)"
  by code_simp

text \<open>
  With the sink in the slot 0 and the sources in the slots 1, 2 and 3 the mixer
  comes first: whatever \<open>MixerCreate\<close> returns, \<open>ContextTopologyApply\<close> returns the
  same error, at the slot 0 when the mixer is nil and at the slot 1 otherwise.
\<close>

lemma ContextTopologyApply_fan_in_fails_sink_first:
  "map_option (\<lambda>(err, context). (err, length (mpfObjects context)))
     (ContextTopologyApply
        \<lparr>BridgeCreate = b, MultiplierCreate = m, MixerCreate = (\<lambda>sources n sink cm name. r)\<rparr>
        (terminations fan_in_sink_first) (contexts fan_in_sink_first 0))
   = Some (Some (Error ''object is nil''), (case r of None \<Rightarrow> 0 | Some ob \<Rightarrow> 1))
   \<and> map TXCount (header (contexts fan_in_sink_first 0)) = [0, 1, 1, 1]
   \<and> map RXCount (header (contexts fan_in_sink_first 0)) = [3, 0, 0, 0]"
proof (cases r)
  case None
  show ?thesis unfolding None by code_simp
next
  case (Some ob)
  show ?thesis unfolding Some by code_simp
qed




text \<open>
  C5.  For a termination whose slot is \<open>-1\<close> (never bound, or bound and then
  subtracted) the guard \<open>i >= context.Capacity\<close> does not hold and
  \<open>context.header[i]\<close> is out of range: \<open>ContextTerminationSubtract\<close>,
  \<open>ContextAssociationAdd\<close> and \<open>ContextAssociationRemove\<close> panic.
\<close>

theorem unbound_termination_panics:
  "(case ContextCreate ''c'' 1 (initial_heap (\<lambda>t. Some (duplex_stream t))) of
      None \<Rightarrow> False
    | Some (c, h1) \<Rightarrow>
        slot (terminations h1 0) = - 1
        \<and> ContextTerminationSubtract c 0 h1 = None
        \<and> ContextAssociationAdd (terminations h1) (contexts h1 c) 0 0 = None
        \<and> ContextAssociationRemove (terminations h1) (contexts h1 c) 0 0 = None
        \<and> (case ContextTerminationAdd c 0 h1 of
              None \<Rightarrow> False
            | Some (ok2, h2) \<Rightarrow>
                (case ContextTerminationSubtract c 0 h2 of
                   None \<Rightarrow> False
                 | Some (ok3, h3) \<Rightarrow>
                     ok2 \<and> ok3 \<and> slot (terminations h3 0) = - 1
                     \<and> ContextTerminationSubtract c 0 h3 = None)))"
  by code_simp

text \<open>
  The other terminations that do not occupy a slot of the context, those whose
  slot is not negative: \<open>ContextTerminationSubtract\<close> returns false,
  \<open>ContextAssociationAdd\<close> and \<open>ContextAssociationRemove\<close> return an error, and
  nothing is changed.
\<close>

lemma mismatch_reported:
  assumes "0 \<le> slot (terminations h t)"
    and "length (header (contexts h c)) = nat (Capacity (contexts h c))"
    and "\<not> bound_to (terminations h) (contexts h c) t"
  shows "ContextTerminationSubtract c t h = Some (False, h)
       \<and> (\<forall>t'. 0 \<le> slot (terminations h t') \<longrightarrow>
             (\<exists>e. ContextAssociationAdd (terminations h) (contexts h c) t t'
                    = Some (Some e, contexts h c))
           \<and> (\<exists>e. ContextAssociationAdd (terminations h) (contexts h c) t' t
                    = Some (Some e, contexts h c))
           \<and> (\<exists>e. ContextAssociationRemove (terminations h) (contexts h c) t t'
                    = Some (Some e, contexts h c))
           \<and> (\<exists>e. ContextAssociationRemove (terminations h) (contexts h c) t' t
                    = Some (Some e, contexts h c)))"
proof -
  let ?ctx = "contexts h c"
  let ?i = "slot (terminations h t)"
  have cases: "Capacity ?ctx \<le> ?i \<or>
     (?i < Capacity ?ctx \<and> at_index (header ?ctx) ?i = Some (header ?ctx ! nat ?i)
        \<and> termination' (header ?ctx ! nat ?i) \<noteq> Some t)"
    using assms by (auto simp add: bound_to_def at_index_def split: if_splits)
  have sub: "ContextTerminationSubtract c t h = Some (False, h)"
    using cases by (auto simp add: ContextTerminationSubtract.simps Let_def)
  have other: "Capacity ?ctx \<le> j \<or> (\<exists>x. at_index (header ?ctx) j = Some x)"
    if "0 \<le> j" for j
    using that assms(2) by (auto simp add: at_index_def)
  show ?thesis
  proof (intro conjI allI impI)
    show "ContextTerminationSubtract c t h = Some (False, h)" by (rule sub)
  next
    fix t' assume "0 \<le> slot (terminations h t')"
    note o = other[OF this]
    show "\<exists>e. ContextAssociationAdd (terminations h) ?ctx t t' = Some (Some e, ?ctx)"
      using cases o by (auto simp add: ContextAssociationAdd.simps Let_def)
    show "\<exists>e. ContextAssociationAdd (terminations h) ?ctx t' t = Some (Some e, ?ctx)"
      using cases o by (auto simp add: ContextAssociationAdd.simps Let_def)
    show "\<exists>e. ContextAssociationRemove (terminations h) ?ctx t t' = Some (Some e, ?ctx)"
      using cases o by (auto simp add: ContextAssociationRemove.simps Let_def)
    show "\<exists>e. ContextAssociationRemove (terminations h) ?ctx t' t = Some (Some e, ?ctx)"
      using cases o by (auto simp add: ContextAssociationRemove.simps Let_def)
  qed
qed

lemma count_update_on:
  "b < length xs \<Longrightarrow> \<not> P (xs ! b) \<Longrightarrow> P v \<Longrightarrow>
   length (filter P (xs[b := v])) = Suc (length (filter P xs))"
proof -
  assume b: "b < length xs" and n: "\<not> P (xs ! b)" and v: "P v"
  have "length (filter P xs) = length (filter P (take b xs @ xs ! b # drop (Suc b) xs))"
    using b by (simp add: id_take_nth_drop[symmetric])
  then show ?thesis using b n v by (simp add: upd_conv_take_nth_drop)
qed

lemma count_update_off:
  "b < length xs \<Longrightarrow> P (xs ! b) \<Longrightarrow> \<not> P v \<Longrightarrow>
   Suc (length (filter P (xs[b := v]))) = length (filter P xs)"
proof -
  assume b: "b < length xs" and n: "P (xs ! b)" and v: "\<not> P v"
  have "length (filter P xs) = length (filter P (take b xs @ xs ! b # drop (Suc b) xs))"
    using b by (simp add: id_take_nth_drop[symmetric])
  then show ?thesis using b n v by (simp add: upd_conv_take_nth_drop)
qed

lemma count_update_same:
  "b < length xs \<Longrightarrow> P v = P (xs ! b) \<Longrightarrow>
   length (filter P (xs[b := v])) = length (filter P xs)"
proof -
  assume b: "b < length xs" and n: "P v = P (xs ! b)"
  have "length (filter P xs) = length (filter P (take b xs @ xs ! b # drop (Suc b) xs))"
    using b by (simp add: id_take_nth_drop[symmetric])
  then show ?thesis using b n by (simp add: upd_conv_take_nth_drop)
qed

lemma count_less:
  "b < length xs \<Longrightarrow> \<not> P (xs ! b) \<Longrightarrow> length (filter P xs) < length xs"
  by (rule length_filter_less[of "xs ! b"]) simp_all

lemma unat_inc8: "unat (w :: 8 word) < 255 \<Longrightarrow> unat (w + 1) = Suc (unat w)"
  by (simp add: unat_word_ariths)

lemma unat_dec8: "0 < unat (w :: 8 word) \<Longrightarrow> Suc (unat (w - 1)) = unat w"
proof -
  assume a: "0 < unat w"
  then have "w \<noteq> 0" by auto
  then have "unat (w - 1) = unat w - 1" by (rule unat_minus_one)
  with a show ?thesis by simp
qed

lemma counters_consistent_iff:
  "counters_consistent ctx \<longleftrightarrow>
     (\<forall>k < nat (Capacity ctx).
        unat (TXCount (header ctx ! k)) = tx_edges ctx k \<and>
        unat (RXCount (header ctx ! k)) = rx_edges ctx k)"
  by (auto simp add: counters_consistent_def list_all_iff)

lemma well_formed_row:
  "well_formed ctx \<Longrightarrow> k < nat (Capacity ctx) \<Longrightarrow> length (matrix ctx ! k) = nat (Capacity ctx)"
  by (simp add: well_formed_def list_all_length)

lemma well_formed_update:
  assumes "well_formed ctx" "a < nat (Capacity ctx)"
  shows "well_formed (ctx\<lparr>matrix := (matrix ctx)[a := (matrix ctx ! a)[b := v]], header := (header ctx)[a' := x, b' := y]\<rparr>)"
  using assms by (auto simp add: well_formed_def list_all_length nth_list_update)

text \<open>Switching one matrix entry on, with both counters incremented.\<close>

lemma switch_on_consistent:
  assumes wf: "well_formed ctx" and cap: "Capacity ctx \<le> 255" and con: "counters_consistent ctx"
    and a: "a < nat (Capacity ctx)" and b: "b < nat (Capacity ctx)"
    and off: "On (matrix ctx ! a ! b) = 0"
  defines "h1 \<equiv> (header ctx)[a := (header ctx ! a)\<lparr>TXCount := TXCount (header ctx ! a) + 1\<rparr>]"
  defines "ctx' \<equiv> ctx\<lparr>matrix := (matrix ctx)[a := (matrix ctx ! a)[b := \<lparr>On = 1\<rparr>]],
                      header := h1[b := (h1 ! b)\<lparr>RXCount := RXCount (h1 ! b) + 1\<rparr>]\<rparr>"
  shows "counters_consistent ctx'"
proof -
  let ?n = "nat (Capacity ctx)"
  let ?m = "matrix ctx"
  let ?P = "\<lambda>item. On item > 0"
  have lm: "length ?m = ?n" and lh: "length (header ctx) = ?n" and n255: "?n \<le> 255"
    using wf cap by (simp_all add: well_formed_def)
  have lr: "\<And>k. k < ?n \<Longrightarrow> length (?m ! k) = ?n" using wf by (rule well_formed_row)
  have old: "\<And>k. k < ?n \<Longrightarrow> unat (TXCount (header ctx ! k)) = tx_edges ctx k
                           \<and> unat (RXCount (header ctx ! k)) = rx_edges ctx k"
    using con by (simp add: counters_consistent_iff)
  have nP: "\<not> ?P (?m ! a ! b)" using off by simp
  \<comment> \<open>row \<open>a\<close> gains one entry\<close>
  have txa: "tx_edges ctx' a = Suc (tx_edges ctx a)"
    using a b lm lr[OF a] nP
    by (simp add: tx_edges_def ctx'_def count_update_on)
  have txk: "\<And>k. k \<noteq> a \<Longrightarrow> tx_edges ctx' k = tx_edges ctx k"
    by (simp add: tx_edges_def ctx'_def)
  have tx_lt: "tx_edges ctx a < ?n"
    using count_less[of b "?m ! a" ?P] b lr[OF a] nP by (simp add: tx_edges_def)
  \<comment> \<open>column \<open>b\<close> gains one entry\<close>
  have rxb: "rx_edges ctx' b = Suc (rx_edges ctx b)"
    using a b lm lr[OF a] nP
    by (simp add: rx_edges_def ctx'_def count_update_on[where P = "\<lambda>row. 0 < On (row ! b)"])
  have rxk: "\<And>k. k \<noteq> b \<Longrightarrow> rx_edges ctx' k = rx_edges ctx k"
    using a lm
    by (simp add: rx_edges_def ctx'_def count_update_same)
  have rx_lt: "rx_edges ctx b < ?n"
    using count_less[of a ?m "\<lambda>row. 0 < On (row ! b)"] a lm nP by (simp add: rx_edges_def)
  have txh: "\<And>k. k < ?n \<Longrightarrow> TXCount (header ctx' ! k)
               = (if k = a then TXCount (header ctx ! a) + 1 else TXCount (header ctx ! k))"
    using lh a b by (auto simp add: ctx'_def h1_def nth_list_update)
  have rxh: "\<And>k. k < ?n \<Longrightarrow> RXCount (header ctx' ! k)
               = (if k = b then RXCount (header ctx ! b) + 1 else RXCount (header ctx ! k))"
    using lh a b by (auto simp add: ctx'_def h1_def nth_list_update)
  have inc_tx: "unat (TXCount (header ctx ! a) + 1) = Suc (tx_edges ctx a)"
    using old[OF a] tx_lt n255 by (simp add: unat_inc8)
  have inc_rx: "unat (RXCount (header ctx ! b) + 1) = Suc (rx_edges ctx b)"
    using old[OF b] rx_lt n255 by (simp add: unat_inc8)
  have cap': "Capacity ctx' = Capacity ctx" by (simp add: ctx'_def)
  show ?thesis
    unfolding counters_consistent_iff cap'
  proof (intro allI impI conjI)
    fix k assume k: "k < ?n"
    show "unat (TXCount (header ctx' ! k)) = tx_edges ctx' k"
      using txh[OF k] txa txk[of k] inc_tx old[OF k] by (cases "k = a") simp_all
    show "unat (RXCount (header ctx' ! k)) = rx_edges ctx' k"
      using rxh[OF k] rxb rxk[of k] inc_rx old[OF k] by (cases "k = b") simp_all
  qed
qed

text \<open>Switching one matrix entry off, with both counters decremented.\<close>

lemma switch_off_consistent:
  assumes wf: "well_formed ctx" and con: "counters_consistent ctx"
    and a: "a < nat (Capacity ctx)" and b: "b < nat (Capacity ctx)"
    and on: "On (matrix ctx ! a ! b) \<noteq> 0"
  defines "h1 \<equiv> (header ctx)[a := (header ctx ! a)\<lparr>TXCount := TXCount (header ctx ! a) - 1\<rparr>]"
  defines "ctx' \<equiv> ctx\<lparr>matrix := (matrix ctx)[a := (matrix ctx ! a)[b := \<lparr>On = 0\<rparr>]],
                      header := h1[b := (h1 ! b)\<lparr>RXCount := RXCount (h1 ! b) - 1\<rparr>]\<rparr>"
  shows "counters_consistent ctx'"
proof -
  let ?n = "nat (Capacity ctx)"
  let ?m = "matrix ctx"
  let ?P = "\<lambda>item. On item > 0"
  have lm: "length ?m = ?n" and lh: "length (header ctx) = ?n"
    using wf by (simp_all add: well_formed_def)
  have lr: "\<And>k. k < ?n \<Longrightarrow> length (?m ! k) = ?n" using wf by (rule well_formed_row)
  have old: "\<And>k. k < ?n \<Longrightarrow> unat (TXCount (header ctx ! k)) = tx_edges ctx k
                           \<and> unat (RXCount (header ctx ! k)) = rx_edges ctx k"
    using con by (simp add: counters_consistent_iff)
  have P: "?P (?m ! a ! b)" using on by (simp add: word_greater_zero_iff)
  have txa: "Suc (tx_edges ctx' a) = tx_edges ctx a"
    using a b lm lr[OF a] P
    by (simp add: tx_edges_def ctx'_def count_update_off)
  have txk: "\<And>k. k \<noteq> a \<Longrightarrow> tx_edges ctx' k = tx_edges ctx k"
    by (simp add: tx_edges_def ctx'_def)
  have rxb: "Suc (rx_edges ctx' b) = rx_edges ctx b"
    using a b lm lr[OF a] P
    by (simp add: rx_edges_def ctx'_def count_update_off[where P = "\<lambda>row. 0 < On (row ! b)"])
  have rxk: "\<And>k. k \<noteq> b \<Longrightarrow> rx_edges ctx' k = rx_edges ctx k"
    using a lm
    by (simp add: rx_edges_def ctx'_def count_update_same)
  have txh: "\<And>k. k < ?n \<Longrightarrow> TXCount (header ctx' ! k)
               = (if k = a then TXCount (header ctx ! a) - 1 else TXCount (header ctx ! k))"
    using lh a b by (auto simp add: ctx'_def h1_def nth_list_update)
  have rxh: "\<And>k. k < ?n \<Longrightarrow> RXCount (header ctx' ! k)
               = (if k = b then RXCount (header ctx ! b) - 1 else RXCount (header ctx ! k))"
    using lh a b by (auto simp add: ctx'_def h1_def nth_list_update)
  have dec_tx: "Suc (unat (TXCount (header ctx ! a) - 1)) = tx_edges ctx a"
    using old[OF a] txa by (simp add: unat_dec8)
  have dec_rx: "Suc (unat (RXCount (header ctx ! b) - 1)) = rx_edges ctx b"
    using old[OF b] rxb by (simp add: unat_dec8)
  have cap': "Capacity ctx' = Capacity ctx" by (simp add: ctx'_def)
  show ?thesis
    unfolding counters_consistent_iff cap'
  proof (intro allI impI conjI)
    fix k assume k: "k < ?n"
    show "unat (TXCount (header ctx' ! k)) = tx_edges ctx' k"
      using txh[OF k] txa txk[of k] dec_tx old[OF k] by (cases "k = a") simp_all
    show "unat (RXCount (header ctx' ! k)) = rx_edges ctx' k"
      using rxh[OF k] rxb rxk[of k] dec_rx old[OF k] by (cases "k = b") simp_all
  qed
qed

lemma same_bindings_refl: "same_bindings ctx ctx"
  by (simp add: same_bindings_def)

lemma same_bindings_trans:
  "same_bindings ctx ctx' \<Longrightarrow> same_bindings ctx' ctx'' \<Longrightarrow> same_bindings ctx ctx''"
  by (simp add: same_bindings_def)

lemma same_bindings_nth:
  assumes "same_bindings ctx ctx'"
  shows "length (header ctx') = length (header ctx)"
    and "k < length (header ctx) \<Longrightarrow>
         termination' (header ctx' ! k) = termination' (header ctx ! k)"
proof -
  from assms have m: "map termination' (header ctx') = map termination' (header ctx)"
    by (simp add: same_bindings_def)
  then show l: "length (header ctx') = length (header ctx)" by (rule map_eq_imp_length_eq)
  assume k: "k < length (header ctx)"
  then have "termination' (header ctx' ! k) = map termination' (header ctx') ! k"
    using l by simp
  also have "\<dots> = termination' (header ctx ! k)" using k m by simp
  finally show "termination' (header ctx' ! k) = termination' (header ctx ! k)" .
qed

lemma same_bindings_bound_to:
  assumes "same_bindings ctx ctx'"
  shows "bound_to terms ctx' t = bound_to terms ctx t"
proof -
  have "Capacity ctx' = Capacity ctx" using assms by (simp add: same_bindings_def)
  then show ?thesis
    using same_bindings_nth[OF assms]
    by (auto simp add: bound_to_def at_index_def)
qed

lemma same_bindings_counters:
  "a < length (header ctx) \<Longrightarrow> b < length (header ctx) \<Longrightarrow>
   same_bindings ctx
     (ctx\<lparr>matrix := m,
          header := ((header ctx)[a := (header ctx ! a)\<lparr>TXCount := x\<rparr>])
                     [b := (((header ctx)[a := (header ctx ! a)\<lparr>TXCount := x\<rparr>]) ! b)\<lparr>RXCount := y\<rparr>]\<rparr>)"
  by (auto simp add: same_bindings_def nth_list_update intro!: nth_equalityI)

lemma set_edge_invariant:
  assumes wf: "well_formed ctx" and cap: "Capacity ctx \<le> 255" and con: "counters_consistent ctx"
    and a: "a < nat (Capacity ctx)" and b: "b < nat (Capacity ctx)"
  shows "well_formed (set_edge ta tb (int a) (int b) ctx)
       \<and> counters_consistent (set_edge ta tb (int a) (int b) ctx)
       \<and> same_bindings ctx (set_edge ta tb (int a) (int b) ctx)"
proof (cases "On (matrix ctx ! a ! b) \<le> 0 \<and> StreamDirectionCompatibilityCheck ta tb")
  case False
  then have "set_edge ta tb (int a) (int b) ctx = ctx"
    by (auto simp add: set_edge_def)
  then show ?thesis using wf con by (simp add: same_bindings_refl)
next
  case True
  let ?h1 = "(header ctx)[a := (header ctx ! a)\<lparr>TXCount := TXCount (header ctx ! a) + 1\<rparr>]"
  let ?ctx' = "ctx\<lparr>matrix := (matrix ctx)[a := (matrix ctx ! a)[b := \<lparr>On = 1\<rparr>]],
                   header := ?h1[b := (?h1 ! b)\<lparr>RXCount := RXCount (?h1 ! b) + 1\<rparr>]\<rparr>"
  have eq: "set_edge ta tb (int a) (int b) ctx = ?ctx'"
    using True by (simp add: set_edge_def update_header_def set_On_def)
  have off: "On (matrix ctx ! a ! b) = 0" using True by simp
  have lh: "length (header ctx) = nat (Capacity ctx)" using wf by (simp add: well_formed_def)
  have "well_formed ?ctx'" using wf a by (rule well_formed_update)
  moreover have "counters_consistent ?ctx'"
    using wf cap con a b off by (rule switch_on_consistent)
  moreover have "same_bindings ctx ?ctx'"
    using a b lh by (intro same_bindings_counters) simp_all
  ultimately show ?thesis unfolding eq by simp
qed

lemma clear_edge_invariant:
  assumes wf: "well_formed ctx" and con: "counters_consistent ctx"
    and a: "a < nat (Capacity ctx)" and b: "b < nat (Capacity ctx)"
  shows "\<exists>ctx'. clear_edge (int a) (int b) ctx = Some ctx' \<and> well_formed ctx'
           \<and> counters_consistent ctx' \<and> same_bindings ctx ctx'"
proof -
  have lm: "length (matrix ctx) = nat (Capacity ctx)"
    and lh: "length (header ctx) = nat (Capacity ctx)"
    using wf by (simp_all add: well_formed_def)
  have lr: "length (matrix ctx ! a) = nat (Capacity ctx)" using wf a by (rule well_formed_row)
  have at: "matrix_at ctx (int a) (int b) = Some (matrix ctx ! a ! b)"
    using a b lm lr by (auto simp add: matrix_at_def at_index_def)
  show ?thesis
  proof (cases "On (matrix ctx ! a ! b) > 0")
    case False
    then show ?thesis using at wf con by (simp add: clear_edge_def same_bindings_refl)
  next
    case True
    let ?h1 = "(header ctx)[a := (header ctx ! a)\<lparr>TXCount := TXCount (header ctx ! a) - 1\<rparr>]"
    let ?ctx' = "ctx\<lparr>matrix := (matrix ctx)[a := (matrix ctx ! a)[b := \<lparr>On = 0\<rparr>]],
                     header := ?h1[b := (?h1 ! b)\<lparr>RXCount := RXCount (?h1 ! b) - 1\<rparr>]\<rparr>"
    have eq: "clear_edge (int a) (int b) ctx = Some ?ctx'"
      using True at by (simp add: clear_edge_def update_header_def set_On_def)
    have on: "On (matrix ctx ! a ! b) \<noteq> 0" using True by auto
    have "well_formed ?ctx'" using wf a by (rule well_formed_update)
    moreover have "counters_consistent ?ctx'"
      using wf con a b on by (rule switch_off_consistent)
    moreover have "same_bindings ctx ?ctx'"
      using a b lh by (intro same_bindings_counters) simp_all
    ultimately show ?thesis unfolding eq by simp
  qed
qed

lemma bound_to_slot:
  assumes "well_formed ctx" "bound_to terms ctx t"
  shows "\<exists>a. slot (terms t) = int a \<and> a < nat (Capacity ctx)
           \<and> at_index (header ctx) (int a) = Some (header ctx ! a)
           \<and> termination' (header ctx ! a) = Some t"
proof -
  from assms(2) have r: "0 \<le> slot (terms t)" "slot (terms t) < Capacity ctx"
    "termination' (header ctx ! nat (slot (terms t))) = Some t"
    by (auto simp add: bound_to_def at_index_def split: if_splits)
  from assms(1) have "length (header ctx) = nat (Capacity ctx)" by (simp add: well_formed_def)
  with r show ?thesis
    by (intro exI[of _ "nat (slot (terms t))"]) (simp add: at_index_def)
qed

lemma ContextAssociationAdd_invariant:
  assumes wf: "well_formed ctx" and cap: "Capacity ctx \<le> 255" and con: "counters_consistent ctx"
    and b1: "bound_to terms ctx t1" and b2: "bound_to terms ctx t2"
  shows "\<exists>ctx'. ContextAssociationAdd terms ctx t1 t2 = Some (None, ctx') \<and> well_formed ctx'
           \<and> counters_consistent ctx' \<and> same_bindings ctx ctx'"
proof -
  from bound_to_slot[OF wf b1] obtain i where i: "slot (terms t1) = int i" "i < nat (Capacity ctx)"
    "at_index (header ctx) (int i) = Some (header ctx ! i)" "termination' (header ctx ! i) = Some t1"
    by blast
  from bound_to_slot[OF wf b2] obtain j where j: "slot (terms t2) = int j" "j < nat (Capacity ctx)"
    "at_index (header ctx) (int j) = Some (header ctx ! j)" "termination' (header ctx ! j) = Some t2"
    by blast
  have lm: "length (matrix ctx) = nat (Capacity ctx)" using wf by (simp add: well_formed_def)
  have at: "matrix_at ctx (int i) (int j) = Some (matrix ctx ! i ! j)"
    "matrix_at ctx (int j) (int i) = Some (matrix ctx ! j ! i)"
    using i(2) j(2) lm well_formed_row[OF wf i(2)] well_formed_row[OF wf j(2)]
    by (auto simp add: matrix_at_def at_index_def)
  have lt: "int i < Capacity ctx" "int j < Capacity ctx" using i(2) j(2) by linarith+
  let ?c1 = "set_edge (terms t1) (terms t2) (int i) (int j) ctx"
  let ?c2 = "set_edge (terms t2) (terms t1) (int j) (int i) ?c1"
  have eq: "ContextAssociationAdd terms ctx t1 t2 = Some (None, ?c2)"
    using i j at lt by (simp add: ContextAssociationAdd.simps Let_def)
  from set_edge_invariant[OF wf cap con i(2) j(2), of "terms t1" "terms t2"]
  have c1: "well_formed ?c1" "counters_consistent ?c1" "same_bindings ctx ?c1" by simp_all
  from c1(3) have cap1: "Capacity ?c1 = Capacity ctx" by (simp add: same_bindings_def)
  from set_edge_invariant[OF c1(1) _ c1(2), of j i "terms t2" "terms t1"] cap i(2) j(2) cap1
  have c2: "well_formed ?c2" "counters_consistent ?c2" "same_bindings ?c1 ?c2" by simp_all
  show ?thesis using eq c2 same_bindings_trans[OF c1(3) c2(3)] by simp
qed

lemma ContextAssociationRemove_invariant:
  assumes wf: "well_formed ctx" and con: "counters_consistent ctx"
    and b1: "bound_to terms ctx t1" and b2: "bound_to terms ctx t2"
  shows "\<exists>ctx'. ContextAssociationRemove terms ctx t1 t2 = Some (None, ctx') \<and> well_formed ctx'
           \<and> counters_consistent ctx' \<and> same_bindings ctx ctx'"
proof -
  from bound_to_slot[OF wf b1] obtain i where i: "slot (terms t1) = int i" "i < nat (Capacity ctx)"
    "at_index (header ctx) (int i) = Some (header ctx ! i)" "termination' (header ctx ! i) = Some t1"
    by blast
  from bound_to_slot[OF wf b2] obtain j where j: "slot (terms t2) = int j" "j < nat (Capacity ctx)"
    "at_index (header ctx) (int j) = Some (header ctx ! j)" "termination' (header ctx ! j) = Some t2"
    by blast
  have lm: "length (matrix ctx) = nat (Capacity ctx)" using wf by (simp add: well_formed_def)
  have at: "matrix_at ctx (int i) (int j) = Some (matrix ctx ! i ! j)"
    "matrix_at ctx (int j) (int i) = Some (matrix ctx ! j ! i)"
    using i(2) j(2) lm well_formed_row[OF wf i(2)] well_formed_row[OF wf j(2)]
    by (auto simp add: matrix_at_def at_index_def)
  have lt: "int i < Capacity ctx" "int j < Capacity ctx" using i(2) j(2) by linarith+
  from clear_edge_invariant[OF wf con i(2) j(2)]
  obtain c1 where c1: "clear_edge (int i) (int j) ctx = Some c1" "well_formed c1"
    "counters_consistent c1" "same_bindings ctx c1" by blast
  from c1(4) have cap1: "Capacity c1 = Capacity ctx" by (simp add: same_bindings_def)
  from clear_edge_invariant[OF c1(2,3), of j i] i(2) j(2) cap1
  obtain c2 where c2: "clear_edge (int j) (int i) c1 = Some c2" "well_formed c2"
    "counters_consistent c2" "same_bindings c1 c2" by auto
  have eq: "ContextAssociationRemove terms ctx t1 t2 = Some (None, c2)"
    using i j at lt c1(1) c2(1) by (simp add: ContextAssociationRemove.simps Let_def)
  show ?thesis using eq c2 same_bindings_trans[OF c1(4) c2(4)] by simp
qed

text \<open>
  A context just created by \<open>ContextCreate\<close> has no termination, every matrix
  entry off and every counter 0; its counters agree with its matrix.
\<close>

lemma ContextCreate_fresh:
  assumes "0 \<le> n"
  shows "\<exists>c h'. ContextCreate name n h = Some (c, h')
          \<and> Capacity (contexts h' c) = n \<and> Count (contexts h' c) = 0
          \<and> well_formed (contexts h' c) \<and> counters_consistent (contexts h' c)
          \<and> list_all (\<lambda>x. termination' x = None \<and> TXCount x = 0 \<and> RXCount x = 0)
               (header (contexts h' c))
          \<and> list_all (list_all (\<lambda>item. On item = 0)) (matrix (contexts h' c))"
  using assms
  by (auto simp add: ContextCreate_def PushBack_def set_context_def Let_def well_formed_def
        counters_consistent_def tx_edges_def rx_edges_def list_all_iff filter_empty_conv)

text \<open>
  C6 (amended).  In a context of capacity at most 255 whose counters agree with the
  matrix (as in a new context), every sequence of \<open>ContextAssociationAdd\<close> and
  \<open>ContextAssociationRemove\<close> calls on terminations bound to it runs without a
  panic and leaves a context in which, for every slot \<open>k\<close>, \<open>header[k].TXCount\<close> is
  the number of slots \<open>j\<close> with \<open>matrix[k][j]\<close> on and \<open>header[k].RXCount\<close> the number of
  slots \<open>j\<close> with \<open>matrix[j][k]\<close> on; the bindings are unchanged.  Nothing is said of
  a context whose counters disagree with its matrix before the calls.
\<close>

theorem association_counters_consistent:
  assumes "well_formed ctx" and "Capacity ctx \<le> 255" and "counters_consistent ctx"
    and "list_all (call_bound terms ctx) calls"
  shows "\<exists>ctx'. run_association_calls terms ctx calls = Some ctx'
           \<and> counters_consistent ctx' \<and> well_formed ctx' \<and> same_bindings ctx ctx'"
  using assms
proof (induction calls arbitrary: ctx)
  case Nil
  then show ?case by (simp add: same_bindings_refl)
next
  case (Cons call calls)
  from Cons.prems(4) have cb: "call_bound terms ctx call" and rest: "list_all (call_bound terms ctx) calls"
    by simp_all
  have "\<exists>c1. run_association_call terms ctx call = Some (None, c1) \<and> well_formed c1
           \<and> counters_consistent c1 \<and> same_bindings ctx c1"
  proof (cases call)
    case (CallAssociationAdd t1 t2)
    with cb ContextAssociationAdd_invariant[OF Cons.prems(1,2,3), of terms t1 t2]
    show ?thesis by simp
  next
    case (CallAssociationRemove t1 t2)
    with cb ContextAssociationRemove_invariant[OF Cons.prems(1,3), of terms t1 t2]
    show ?thesis by simp
  qed
  then obtain c1 where c1: "run_association_call terms ctx call = Some (None, c1)" "well_formed c1"
    "counters_consistent c1" "same_bindings ctx c1" by blast
  have cap1: "Capacity c1 \<le> 255" using c1(4) Cons.prems(2) by (simp add: same_bindings_def)
  have "call_bound terms c1 = call_bound terms ctx"
  proof
    fix x show "call_bound terms c1 x = call_bound terms ctx x"
      using same_bindings_bound_to[OF c1(4)] by (cases x) simp_all
  qed
  with rest have rest1: "list_all (call_bound terms c1) calls" by simp
  from Cons.IH[OF c1(2) cap1 c1(3) rest1] obtain c2 where
    c2: "run_association_calls terms c1 calls = Some c2" "counters_consistent c2" "well_formed c2"
      "same_bindings c1 c2" by blast
  show ?case using c1 c2 same_bindings_trans[OF c1(4) c2(4)] by auto
qed

lemma fan_lens:
  "length (header (fan_context n)) = 256" "length (matrix (fan_context n)) = 256"
  "Capacity (fan_context n) = 256"
  "k < 256 \<Longrightarrow> length (matrix (fan_context n) ! k) = 256"
  by (simp_all add: fan_context_def)

lemma fan_header:
  "k < 256 \<Longrightarrow> header (fan_context n) ! k
     = \<lparr>termination' = Some k, TXCount = (if k = 0 then of_nat n else 0),
        RXCount = (if 0 < k \<and> k \<le> n then 1 else 0)\<rparr>"
  by (simp add: fan_context_def)

lemma fan_matrix:
  "i < 256 \<Longrightarrow> j < 256 \<Longrightarrow>
   matrix (fan_context n) ! i ! j = \<lparr>On = (if i = 0 \<and> 0 < j \<and> j \<le> n then 1 else 0)\<rparr>"
  by (simp add: fan_context_def)

lemma fan_compat:
  "StreamDirectionCompatibilityCheck (fan_terms 0) (fan_terms k)"
  "0 < k \<Longrightarrow> \<not> StreamDirectionCompatibilityCheck (fan_terms k) (fan_terms 0)"
  by (simp_all add: StreamDirectionCompatibilityCheck_def fan_terms_def duplex_stream_def
        send_stream_def STREAM_DIRECTION_SEND_def STREAM_DIRECTION_RECEIVE_def)

lemma fan_set_edge:
  assumes n: "n < 255"
  shows "set_edge (fan_terms 0) (fan_terms (Suc n)) 0 (int (Suc n)) (fan_context n)
           = fan_context (Suc n)"
proof -
  have off: "On (matrix (fan_context n) ! 0 ! Suc n) \<le> 0"
    using n by (simp add: fan_matrix)
  have m: "(matrix (fan_context n))[0 := (matrix (fan_context n) ! 0)[Suc n := \<lparr>On = 1\<rparr>]]
             = matrix (fan_context (Suc n))"
  proof (rule nth_equalityI)
    show "length ((matrix (fan_context n))[0 := (matrix (fan_context n) ! 0)[Suc n := \<lparr>On = 1\<rparr>]])
            = length (matrix (fan_context (Suc n)))"
      by (simp add: fan_lens)
  next
    fix i assume "i < length ((matrix (fan_context n))[0 := (matrix (fan_context n) ! 0)[Suc n := \<lparr>On = 1\<rparr>]])"
    then have i: "i < 256" by (simp add: fan_lens)
    show "(matrix (fan_context n))[0 := (matrix (fan_context n) ! 0)[Suc n := \<lparr>On = 1\<rparr>]] ! i
            = matrix (fan_context (Suc n)) ! i"
    proof (rule nth_equalityI)
      show "length ((matrix (fan_context n))[0 := (matrix (fan_context n) ! 0)[Suc n := \<lparr>On = 1\<rparr>]] ! i)
              = length (matrix (fan_context (Suc n)) ! i)"
        using i by (simp add: fan_lens nth_list_update)
    next
      fix j assume "j < length ((matrix (fan_context n))[0 := (matrix (fan_context n) ! 0)[Suc n := \<lparr>On = 1\<rparr>]] ! i)"
      then have j: "j < 256" using i by (simp add: fan_lens nth_list_update split: if_splits)
      show "(matrix (fan_context n))[0 := (matrix (fan_context n) ! 0)[Suc n := \<lparr>On = 1\<rparr>]] ! i ! j
              = matrix (fan_context (Suc n)) ! i ! j"
        using i j n by (auto simp add: fan_lens fan_matrix nth_list_update)
    qed
  qed
  let ?h1 = "(header (fan_context n))[0 := (header (fan_context n) ! 0)
               \<lparr>TXCount := TXCount (header (fan_context n) ! 0) + 1\<rparr>]"
  have h: "?h1[Suc n := (?h1 ! Suc n)\<lparr>RXCount := RXCount (?h1 ! Suc n) + 1\<rparr>]
             = header (fan_context (Suc n))"
  proof (rule nth_equalityI)
    show "length (?h1[Suc n := (?h1 ! Suc n)\<lparr>RXCount := RXCount (?h1 ! Suc n) + 1\<rparr>])
            = length (header (fan_context (Suc n)))"
      by (simp add: fan_lens)
  next
    fix k assume "k < length (?h1[Suc n := (?h1 ! Suc n)\<lparr>RXCount := RXCount (?h1 ! Suc n) + 1\<rparr>])"
    then have k: "k < 256" by (simp add: fan_lens)
    show "?h1[Suc n := (?h1 ! Suc n)\<lparr>RXCount := RXCount (?h1 ! Suc n) + 1\<rparr>] ! k
            = header (fan_context (Suc n)) ! k"
      using k n by (auto simp add: fan_lens fan_header nth_list_update)
  qed
  have rest: "Element (fan_context n) = Element (fan_context (Suc n))"
    "Name (fan_context n) = Name (fan_context (Suc n))"
    "Capacity (fan_context n) = Capacity (fan_context (Suc n))"
    "Count (fan_context n) = Count (fan_context (Suc n))"
    "mpfObjects (fan_context n) = mpfObjects (fan_context (Suc n))"
    by (simp_all add: fan_context_def)
  have "set_edge (fan_terms 0) (fan_terms (Suc n)) 0 (int (Suc n)) (fan_context n)
          = (fan_context n)\<lparr>matrix := matrix (fan_context (Suc n)),
                              header := header (fan_context (Suc n))\<rparr>"
    using off fan_compat(1)[of "Suc n"] m h
    by (simp add: set_edge_def update_header_def set_On_def del: of_nat_Suc)
  also have "\<dots> = fan_context (Suc n)"
    using rest by simp
  finally show ?thesis .
qed

lemma fan_add_step:
  assumes n: "n < 255"
  shows "ContextAssociationAdd fan_terms (fan_context n) 0 (Suc n) = Some (None, fan_context (Suc n))"
proof -
  have sl: "slot (fan_terms 0) = 0" "slot (fan_terms (Suc n)) = int (Suc n)"
    by (simp_all add: fan_terms_def)
  have at: "at_index (header (fan_context n)) 0 = Some (header (fan_context n) ! 0)"
    "at_index (header (fan_context n)) (int (Suc n)) = Some (header (fan_context n) ! Suc n)"
    "matrix_at (fan_context n) 0 (int (Suc n)) = Some (matrix (fan_context n) ! 0 ! Suc n)"
    "matrix_at (fan_context n) (int (Suc n)) 0 = Some (matrix (fan_context n) ! Suc n ! 0)"
    using n by (simp_all add: at_index_def matrix_at_def fan_lens del: of_nat_Suc)
  have tm: "termination' (header (fan_context n) ! 0) = Some 0"
    "termination' (header (fan_context n) ! Suc n) = Some (Suc n)"
    using n by (simp_all add: fan_header)
  have rev_edge: "set_edge (fan_terms (Suc n)) (fan_terms 0) (int (Suc n)) 0 (fan_context (Suc n))
                = fan_context (Suc n)"
    using fan_compat(2)[of "Suc n"] by (simp add: set_edge_def)
  show ?thesis
    using n
    by (subst ContextAssociationAdd.simps)
       (simp add: sl at tm fan_lens fan_set_edge rev_edge Let_def del: of_nat_Suc)
qed

lemma fan_run:
  "m \<le> 255 \<Longrightarrow>
   run_association_calls fan_terms (fan_context m)
     (map (\<lambda>k. CallAssociationAdd 0 (Suc k)) [m..<255]) = Some (fan_context 255)"
proof (induction "255 - m" arbitrary: m)
  case 0
  then have "m = 255" by simp
  then show ?case by simp
next
  case (Suc d)
  then have m: "m < 255" and d: "d = 255 - Suc m" by simp_all
  have "[m..<255] = m # [Suc m..<255]" using m by (simp add: upt_conv_Cons)
  then show ?case using fan_add_step[OF m] Suc.hyps(1)[OF d] m by simp
qed

lemma run_association_calls_append:
  "run_association_calls terms ctx (calls @ calls') =
     (case run_association_calls terms ctx calls of
        None \<Rightarrow> None
      | Some ctx' \<Rightarrow> run_association_calls terms ctx' calls')"
  by (induction calls arbitrary: ctx) (auto split: option.splits)

lemma count_range_upt:
  "length (filter (\<lambda>j. 0 < j \<and> j \<le> n) [0..<m]) = min n (m - 1)"
  by (induction m) auto

lemma fan_tx: "tx_edges (fan_context n) 0 = min n 255"
  by (simp add: tx_edges_def fan_context_def filter_map o_def count_range_upt)

lemma fan_add_self:
  "ContextAssociationAdd fan_terms (fan_context 255) 0 0
     = Some (None, (fan_context 255)
         \<lparr>matrix := (matrix (fan_context 255))[0 := (matrix (fan_context 255) ! 0)[0 := \<lparr>On = 1\<rparr>]],
          header := (header (fan_context 255))[0 := \<lparr>termination' = Some 0, TXCount = 0, RXCount = 1\<rparr>]\<rparr>)"
proof -
  let ?c = "fan_context 255"
  have h0: "header ?c ! 0 = \<lparr>termination' = Some 0, TXCount = 255, RXCount = 0\<rparr>"
    by (simp add: fan_header)
  have m00: "matrix ?c ! 0 ! 0 = \<lparr>On = 0\<rparr>"
    by (simp add: fan_matrix)
  have at: "at_index (header ?c) 0 = Some (header ?c ! 0)"
    "matrix_at ?c 0 0 = Some (matrix ?c ! 0 ! 0)"
    by (simp_all add: at_index_def matrix_at_def fan_lens)
  let ?c1 = "?c\<lparr>matrix := (matrix ?c)[0 := (matrix ?c ! 0)[0 := \<lparr>On = 1\<rparr>]],
          header := (header ?c)[0 := \<lparr>termination' = Some 0, TXCount = 0, RXCount = 1\<rparr>]\<rparr>"
  have wrap: "(256 :: 8 word) = 0" by simp
  have s1: "set_edge (fan_terms 0) (fan_terms 0) 0 0 ?c = ?c1"
    using h0 m00 fan_compat(1)[of 0]
    by (simp add: set_edge_def update_header_def set_On_def wrap fan_lens)
  have "On (matrix ?c1 ! 0 ! 0) = 1" by (simp add: fan_lens)
  then have s2: "set_edge (fan_terms 0) (fan_terms 0) 0 0 ?c1 = ?c1"
    by (simp add: set_edge_def)
  have sl: "slot (fan_terms 0) = 0" by (simp add: fan_terms_def)
  show ?thesis
    by (subst ContextAssociationAdd.simps) (simp add: sl fan_lens at h0 m00 s1 s2 Let_def)
qed

lemma fan_start:
  "well_formed (fan_context 0)" "counters_consistent (fan_context 0)"
  "list_all (call_bound fan_terms (fan_context 0)) fan_calls"
proof -
  show "well_formed (fan_context 0)"
    by (simp add: well_formed_def fan_context_def list_all_length)
  have "\<And>k. k < 256 \<Longrightarrow> tx_edges (fan_context 0) k = 0 \<and> rx_edges (fan_context 0) k = 0"
    by (auto simp add: tx_edges_def rx_edges_def fan_context_def filter_map o_def filter_empty_conv)
  then show "counters_consistent (fan_context 0)"
    by (auto simp add: counters_consistent_iff fan_lens fan_header)
  have b: "\<And>k. k < 256 \<Longrightarrow> bound_to fan_terms (fan_context 0) k"
    by (simp add: bound_to_def fan_terms_def at_index_def fan_lens fan_header)
  show "list_all (call_bound fan_terms (fan_context 0)) fan_calls"
    using b by (simp add: fan_calls_def list_all_iff)
qed

text \<open>
  C6 as stated fails for a capacity above 255: the counters are \<open>uint8\<close>.  From the
  context of capacity 256 with every termination bound and no edge, whose counters
  are all 0, 255 calls of \<open>ContextAssociationAdd\<close> give the slot 0 the 255 edges to
  the other slots and \<open>TXCount = 255\<close>; associating the termination 0 with itself
  then switches \<open>matrix[0][0]\<close> on and increments \<open>TXCount\<close> to 0, while 256 entries
  of the row 0 are on.  Every call is on terminations bound to the context.
\<close>

theorem association_counters_wrap:
  "well_formed (fan_context 0) \<and> counters_consistent (fan_context 0)
   \<and> list_all (call_bound fan_terms (fan_context 0)) fan_calls
   \<and> (case run_association_calls fan_terms (fan_context 0) fan_calls of
         None \<Rightarrow> False
       | Some ctx' \<Rightarrow>
           TXCount (header ctx' ! 0) = 0 \<and> tx_edges ctx' 0 = 256 \<and> \<not> counters_consistent ctx')"
proof -
  let ?c = "fan_context 255"
  let ?c1 = "?c\<lparr>matrix := (matrix ?c)[0 := (matrix ?c ! 0)[0 := \<lparr>On = 1\<rparr>]],
          header := (header ?c)[0 := \<lparr>termination' = Some 0, TXCount = 0, RXCount = 1\<rparr>]\<rparr>"
  have run: "run_association_calls fan_terms (fan_context 0) fan_calls = Some ?c1"
    using fan_run[of 0] by (simp add: fan_calls_def run_association_calls_append fan_add_self)
  have m00: "matrix ?c ! 0 ! 0 = \<lparr>On = 0\<rparr>"
    by (simp add: fan_matrix)
  have tx0: "TXCount (header ?c1 ! 0) = 0" by (simp add: fan_lens)
  have "tx_edges ?c1 0 = Suc (tx_edges ?c 0)"
    using m00 by (simp add: tx_edges_def count_update_on fan_lens)
  then have tx: "tx_edges ?c1 0 = 256" by (simp add: fan_tx)
  have "\<not> counters_consistent ?c1"
  proof
    assume c: "counters_consistent ?c1"
    have "0 < nat (Capacity ?c1)" by (simp add: fan_lens)
    with c have "unat (TXCount (header ?c1 ! 0)) = tx_edges ?c1 0"
      unfolding counters_consistent_iff by blast
    with tx0 tx show False by simp
  qed
  with run tx0 tx fan_start show ?thesis by simp
qed

text \<open>
  An instance: the context of capacity 2 with the terminations 0 and 1 bound, and
  three calls on them.
\<close>

theorem association_counters_consistent_witness:
  "well_formed (contexts example_heap 0) \<and> Capacity (contexts example_heap 0) \<le> 255
   \<and> counters_consistent (contexts example_heap 0)
   \<and> list_all (call_bound (terminations example_heap) (contexts example_heap 0))
        [CallAssociationAdd 0 1, CallAssociationRemove 1 0, CallAssociationAdd 1 1]
   \<and> (\<exists>ctx'. run_association_calls (terminations example_heap) (contexts example_heap 0)
                 [CallAssociationAdd 0 1, CallAssociationRemove 1 0, CallAssociationAdd 1 1]
               = Some ctx'
             \<and> counters_consistent ctx' \<and> well_formed ctx'
             \<and> same_bindings (contexts example_heap 0) ctx')"
proof -
  have 1: "well_formed (contexts example_heap 0)" by code_simp
  have 2: "Capacity (contexts example_heap 0) \<le> 255" by code_simp
  have 3: "counters_consistent (contexts example_heap 0)" by code_simp
  have 4: "list_all (call_bound (terminations example_heap) (contexts example_heap 0))
        [CallAssociationAdd 0 1, CallAssociationRemove 1 0, CallAssociationAdd 1 1]" by code_simp
  from association_counters_consistent[OF 1 2 3 4] 1 2 3 4 show ?thesis by blast
qed

text \<open>
  C7.  \<open>ContextCreate\<close> pushes the new context on the factory's list, and the
  first \<open>ContextTerminationAdd\<close> pushes it again: the list then holds the context
  0 in two elements.
\<close>

theorem ContextTerminationAdd_links_twice:
  "do { (c, h1) \<leftarrow> ContextCreate ''c'' 1 (initial_heap (\<lambda>t. Some (duplex_stream t)));
        (ok, h2) \<leftarrow> ContextTerminationAdd c 0 h1;
        Some (ok, c, Link (factory h1), Link (factory h2)) }
   = Some (True, 0, [(0, 0)], [(0, 0), (1, 0)])"
  by code_simp
section \<open>Theorems about the DTMF detector\<close>

lemma foldl_DtmfDetectorGetFrame: "foldl DtmfDetectorGetFrame detector frames = detector"
  by (induction frames) (simp_all add: DtmfDetectorGetFrame_def)

text \<open>
  C8.  \<open>DtmfDetectorGetFrame\<close> has an empty body: a detector created in-band on
  an 8 kHz stream (window of 102 samples) is left unchanged by every sequence of
  frames, whatever they carry, a 697 Hz + 1209 Hz tone included, and
  \<open>DtmfDetectorDigitGet\<close> then returns the sentinel 0: no digit is ever reported.
\<close>

theorem DtmfDetectorGetFrame_detects_nothing:
  "\<exists>detector. DtmfDetectorCreateEx F stream_8k MPF_DTMF_DETECTOR_INBAND = Some detector
     \<and> Band detector = MPF_DTMF_DETECTOR_INBAND
     \<and> WSamples detector = 102
     \<and> (\<forall>frames. foldl DtmfDetectorGetFrame detector frames = detector)
     \<and> (\<forall>frames. DtmfDetectorDigitGet (foldl DtmfDetectorGetFrame detector frames) = Some (0, detector))"
  by (simp add: foldl_DtmfDetectorGetFrame DtmfDetectorCreateEx_def stream_8k_def
        MPF_DTMF_DETECTOR_INBAND_def Let_def
        new_DtmfDetector_def DtmfDetectorDigitGet_def at_index_def MPF_DTMFDET_BUFFER_LEN_def
        GOERTZEL_SAMPLES_8K_def)

lemma goertzel_loop_length: "length (goertzel_loop F x i es) = length es"
  by (induction F x i es rule: goertzel_loop.induct)
     (subst goertzel_loop.simps, simp)

text \<open>
  The resonators: one call of \<open>GoertzelSample\<close> applies to each of the 8 resonator
  states the step \<open>s := S1; S1 = S2; S2 = sample + Coef*S1 - s\<close>, in \<open>float64\<close>
  arithmetic, and leaves the coefficients alone.
\<close>

lemma goertzel_loop_map:
  "i \<le> DTMF_FREQUENCIES \<Longrightarrow> length es = DTMF_FREQUENCIES \<Longrightarrow>
   goertzel_loop F x i es = take i es @ map (goertzel_step F x) (drop i es)"
proof (induction F x i es rule: goertzel_loop.induct)
  case (1 F x i es)
  show ?case
  proof (cases "i < DTMF_FREQUENCIES")
    case False
    with "1.prems" show ?thesis by (subst goertzel_loop.simps) simp
  next
    case True
    let ?es = "es[i := goertzel_step F x (es ! i)]"
    have "goertzel_loop F x i es = goertzel_loop F x (i + 1) ?es"
      using True by (subst goertzel_loop.simps) simp
    also have "\<dots> = take (i + 1) ?es @ map (goertzel_step F x) (drop (i + 1) ?es)"
      using True "1.prems" by (intro "1.IH") simp_all
    also have "\<dots> = take i es @ map (goertzel_step F x) (drop i es)"
      using True "1.prems"
      by (simp add: take_Suc_conv_app_nth Cons_nth_drop_Suc[symmetric])
    finally show ?thesis .
  qed
qed

lemma GoertzelSample_recurrence:
  assumes "length (energies detector) = DTMF_FREQUENCIES"
  shows "energies (GoertzelSample F detector sample)
           = map (goertzel_step F (f_of_int F (sint sample))) (energies detector)
       \<and> (\<forall>x e. Coef (goertzel_step F x e) = Coef e \<and> S1 (goertzel_step F x e) = S2 e
             \<and> S2 (goertzel_step F x e) = f_sub F (f_add F x (f_mul F (Coef e) (S2 e))) (S1 e))"
  using goertzel_loop_map[of 0 "energies detector" F] assms
  by (simp add: GoertzelSample_def Let_def goertzel_step_def)

text \<open>
  C9.  \<open>GoertzelSample\<close> adds the 16-bit product \<open>sample * sample\<close> to
  \<open>TotalEnergy\<close>, not the square of the sample: for the sample 200, whose square
  is 40000, the value added is the conversion of \<open>-25536\<close>; for the sample 256,
  whose square is 65536, it is the conversion of 0.
\<close>

theorem GoertzelSample_energy_wraps:
  "TotalEnergy (GoertzelSample F detector 200) = f_add F (TotalEnergy detector) (f_of_int F (- 25536))
   \<and> TotalEnergy (GoertzelSample F detector 256) = f_add F (TotalEnergy detector) (f_of_int F 0)
   \<and> sint (200 :: 16 word) * sint (200 :: 16 word) = 40000
   \<and> sint (256 :: 16 word) * sint (256 :: 16 word) = 65536"
  by (simp add: GoertzelSample_def Let_def)


















text \<open>
  \<open>DtmfDetectorReset\<close> sets the number of buffered digits and the lost-digit counter
  to 0 and empties the buffer; the band and the coefficients are unchanged.
\<close>

lemma DtmfDetectorReset_clears:
  assumes "buf detector \<noteq> []"
  shows "\<exists>detector'. DtmfDetectorReset F detector = Some detector'
           \<and> Digits detector' = 0 \<and> LostDigits detector' = 0 \<and> Band detector' = Band detector
           \<and> map Coef (energies detector') = map Coef (energies detector)
           \<and> (\<exists>d. DtmfDetectorDigitGet detector' = Some (0, d))"
  using assms
  by (cases "buf detector")
     (auto simp add: DtmfDetectorReset_def store_index_def DtmfDetectorDigitGet_def at_index_def)

end
